theory Spec2Isabelle
  imports Complex_Main "HOL-Library.Char_ord" "HOL-Library.List_Lexorder"
begin

section \<open>The VCD to PulseView CSV converter (tools/vcd\_to\_pulseview\_csv.py)\<close>

text \<open>
  A shallow embedding of the converter. Conventions of the model:
  \<^item> a Python \<open>str\<close> is a \<open>string\<close> (a list of 8-bit characters); the character
    classes of the regular expressions (\<open>\s\<close>, \<open>\d\<close>) and of \<open>str.split\<close>,
    \<open>str.strip\<close> and \<open>str.lower\<close> are modelled on the ASCII range;
  \<^item> a Python \<open>int\<close> is an \<open>int\<close> or, where the pattern \<open>\d+\<close> produced it, a \<open>nat\<close>;
  \<^item> a Python \<open>float\<close> is an IEEE binary64 number; a finite one is held as the rational
    it denotes, and every operation rounds its exact result to the nearest such number,
    ties to even. An \<open>int\<close> too large for a \<open>float\<close> raises \<open>OverflowError\<close>, as in
    Python. A product or sum of floats beyond the finite range, where Python goes on with
    an infinity or a NaN, ends the run of the model with the value \<open>NotFinite\<close>: such
    runs are outside the model. The sign of a zero is not held: no time computed here is
    a negative zero;
  \<^item> the input file is the list of its lines (the result of \<open>splitlines\<close>), the output
    file is the list of the strings written to it;
  \<^item> \<open>sys.exit(1)\<close> and uncaught exceptions are values of type \<open>error\<close>;
  \<^item> the sampling loop of the uniform mode may run forever; not returning is \<open>None\<close>.
\<close>

subsection \<open>Characters and strings\<close>

definition is_space :: "char \<Rightarrow> bool" where
  "is_space c = (c \<in> set [CHR 0x09, CHR 0x0A, CHR 0x0B, CHR 0x0C, CHR 0x0D,
                           CHR 0x1C, CHR 0x1D, CHR 0x1E, CHR 0x1F, CHR 0x20])"

definition is_digit :: "char \<Rightarrow> bool" where
  "is_digit c = (c \<in> set ''0123456789'')"

definition digit_val :: "char \<Rightarrow> nat" where
  "digit_val c =
     (case map_of (zip ''0123456789'' [0, 1, 2, 3, 4, 5, 6, 7, 8, 9]) c of
        Some d \<Rightarrow> d | None \<Rightarrow> 0)"

text \<open>\<open>int(s)\<close> for a string matched by \<open>\d+\<close>.\<close>

definition nat_of_digits :: "string \<Rightarrow> nat" where
  "nat_of_digits ds = foldl (\<lambda>a c. 10 * a + digit_val c) 0 ds"

definition lower_char :: "char \<Rightarrow> char" where
  "lower_char c =
     (case map_of (zip ''ABCDEFGHIJKLMNOPQRSTUVWXYZ'' ''abcdefghijklmnopqrstuvwxyz'') c of
        Some d \<Rightarrow> d | None \<Rightarrow> c)"

definition lower :: "string \<Rightarrow> string" where
  "lower s = map lower_char s"

definition lstrip :: "string \<Rightarrow> string" where
  "lstrip s = dropWhile is_space s"

definition rstrip :: "string \<Rightarrow> string" where
  "rstrip s = rev (dropWhile is_space (rev s))"

definition strip :: "string \<Rightarrow> string" where
  "strip s = lstrip (rstrip s)"

text \<open>\<open>s.split()\<close>: the maximal runs of non-whitespace characters.\<close>

fun split_acc :: "string \<Rightarrow> string \<Rightarrow> string list" where
  "split_acc cur [] = (if cur = [] then [] else [cur])"
| "split_acc cur (c # cs) =
     (if is_space c then (if cur = [] then split_acc [] cs else cur # split_acc [] cs)
      else split_acc (cur @ [c]) cs)"

definition split_ws :: "string \<Rightarrow> string list" where
  "split_ws s = split_acc [] s"

fun starts_with :: "string \<Rightarrow> string \<Rightarrow> bool" where
  "starts_with [] s = True"
| "starts_with (p # ps) [] = False"
| "starts_with (p # ps) (c # cs) = (p = c \<and> starts_with ps cs)"

definition ends_with :: "string \<Rightarrow> string \<Rightarrow> bool" where
  "ends_with p s = starts_with (rev p) (rev s)"

text \<open>\<open>sub in s\<close>.\<close>

fun contains :: "string \<Rightarrow> string \<Rightarrow> bool" where
  "contains sub [] = (sub = [])"
| "contains sub (c # cs) = (starts_with sub (c # cs) \<or> contains sub cs)"

text \<open>\<open>sep.join(xs)\<close>.\<close>

fun join :: "string \<Rightarrow> string list \<Rightarrow> string" where
  "join sep [] = []"
| "join sep [x] = x"
| "join sep (x # y # ys) = x @ sep @ join sep (y # ys)"

subsection \<open>The value sanitizer\<close>

text \<open>
  \<^verbatim>\<open>
  def sanitize_bit(val, prev):
      v = val.lower()
      if v in ('0', '1'): return v
      if v == 'z': return '1'
      if prev in ('0', '1'): return prev
      return '1'
  \<close>
\<close>

definition sanitize_bit :: "string \<Rightarrow> string \<Rightarrow> string" where
  "sanitize_bit val prev =
     (let v = lower val in
      if v = ''0'' \<or> v = ''1'' then v
      else if v = ''z'' then ''1''
      else if prev = ''0'' \<or> prev = ''1'' then prev
      else ''1'')"

subsection \<open>The regular expressions\<close>

text \<open>
  Each pattern is matched by \<open>re.match\<close>, that is at the start of the string. In every
  pattern below the character classes of consecutive parts are disjoint, so the greedy
  match is the only one and is computed with \<open>takeWhile\<close> and \<open>dropWhile\<close>.
\<close>

text \<open>\<open>RE_TIME = ^#(\d+)\s*$\<close>; the result is \<open>int(group(1))\<close>.\<close>

definition re_time :: "string \<Rightarrow> nat option" where
  "re_time line =
     (case line of
        [] \<Rightarrow> None
      | c # r \<Rightarrow>
          if c \<noteq> CHR ''#'' then None
          else let ds = takeWhile is_digit r; rest = dropWhile is_digit r in
            if ds \<noteq> [] \<and> list_all is_space rest then Some (nat_of_digits ds) else None)"

definition is_bit_char :: "char \<Rightarrow> bool" where
  "is_bit_char c = (c \<in> set ''01xXzZ'')"

text \<open>\<open>RE_SCALAR = ^([01xXzZ])(\S+)\s*$\<close>; the result is (value, identifier).\<close>

definition re_scalar :: "string \<Rightarrow> (string \<times> string) option" where
  "re_scalar line =
     (case line of
        [] \<Rightarrow> None
      | c # r \<Rightarrow>
          if \<not> is_bit_char c then None
          else let sid = takeWhile (\<lambda>x. \<not> is_space x) r;
                   rest = dropWhile (\<lambda>x. \<not> is_space x) r in
            if sid \<noteq> [] \<and> list_all is_space rest then Some ([c], sid) else None)"

text \<open>\<open>RE_VECTOR = ^[bB]([01xXzZ]+)\s+(\S+)\s*$\<close>; the result is (bits, identifier).\<close>

definition re_vector :: "string \<Rightarrow> (string \<times> string) option" where
  "re_vector line =
     (case line of
        [] \<Rightarrow> None
      | c # r \<Rightarrow>
          if c \<noteq> CHR ''b'' \<and> c \<noteq> CHR ''B'' then None
          else let bits = takeWhile is_bit_char r; r1 = dropWhile is_bit_char r;
                   ws = takeWhile is_space r1; r2 = dropWhile is_space r1;
                   sid = takeWhile (\<lambda>x. \<not> is_space x) r2;
                   rest = dropWhile (\<lambda>x. \<not> is_space x) r2 in
            if bits \<noteq> [] \<and> ws \<noteq> [] \<and> sid \<noteq> [] \<and> list_all is_space rest
            then Some (bits, sid) else None)"

text \<open>
  \<open>RE_BUSBIT = ^(.+)\[(\d+)\]$\<close>; the result is (base, \<open>int(index)\<close>). \<open>$\<close> also
  matches before a final line feed, and \<open>.\<close> matches no line feed.
\<close>

definition re_busbit :: "string \<Rightarrow> (string \<times> nat) option" where
  "re_busbit n =
     (let r = (case rev n of [] \<Rightarrow> [] | c # cs \<Rightarrow> if c = CHR 0x0A then cs else c # cs) in
      case r of
        [] \<Rightarrow> None
      | c # r1 \<Rightarrow>
          if c \<noteq> CHR '']'' then None
          else let ds = takeWhile is_digit r1; r2 = dropWhile is_digit r1 in
            (case r2 of
               [] \<Rightarrow> None
             | c2 # r3 \<Rightarrow>
                 if c2 = CHR ''['' \<and> ds \<noteq> [] \<and> r3 \<noteq> [] \<and> CHR 0x0A \<notin> set r3
                 then Some (rev r3, nat_of_digits (rev ds)) else None))"

text \<open>The range of a bus declaration: \<open>re.match(r'\[(\d+):(\d+)\]', rng)\<close>.\<close>

definition re_range :: "string \<Rightarrow> (nat \<times> nat) option" where
  "re_range s =
     (case s of
        [] \<Rightarrow> None
      | c # r \<Rightarrow>
          if c \<noteq> CHR ''['' then None
          else let a = takeWhile is_digit r; r1 = dropWhile is_digit r in
            (case r1 of
               [] \<Rightarrow> None
             | c1 # r2 \<Rightarrow>
                 if c1 \<noteq> CHR '':'' \<or> a = [] then None
                 else let b = takeWhile is_digit r2; r3 = dropWhile is_digit r2 in
                   (case r3 of
                      [] \<Rightarrow> None
                    | c2 # r4 \<Rightarrow>
                        if c2 \<noteq> CHR '']'' \<or> b = [] then None
                        else Some (nat_of_digits a, nat_of_digits b))))"

text \<open>
  \<open>RE_TS = ^(\s*)(\d+)\s*([fpnumk]?s)\s*$\<close>, ignoring case; the result is
  (\<open>int(factor)\<close>, \<open>unit.lower()\<close>).
\<close>

definition re_ts :: "string \<Rightarrow> (nat \<times> string) option" where
  "re_ts line =
     (let r = dropWhile is_space line;
          ds = takeWhile is_digit r;
          r1 = dropWhile is_space (dropWhile is_digit r);
          u = lower (takeWhile (\<lambda>x. \<not> is_space x) r1);
          rest = dropWhile (\<lambda>x. \<not> is_space x) r1 in
      if ds \<noteq> [] \<and> u \<in> set [''s'', ''fs'', ''ps'', ''ns'', ''us'', ''ms'', ''ks'']
         \<and> list_all is_space rest
      then Some (nat_of_digits ds, u) else None)"

subsection \<open>Errors and floating-point numbers\<close>

text \<open>
  The three \<open>sys.exit(1)\<close> of \<open>vcd_to_csv\<close>, the exceptions that its statements can
  raise, and \<open>NotFinite\<close>, which is no exception of Python: it marks a run in which a
  float operation gave an infinity or a NaN.
\<close>

datatype error =
  NoSignalsFound
| MissingSignals "string list"
| EmptyEffectiveSelection
| KeyError string
| IndexError
| TypeError
| OverflowError
| NotFinite

text \<open>\<open>n.bit_length()\<close> for an integer that is not negative.\<close>

function bit_length :: "int \<Rightarrow> int" where
  "bit_length n = (if n \<le> 0 then 0 else 1 + bit_length (n div 2))"
  by pat_completeness auto
termination
  by (relation "measure nat") auto

declare bit_length.simps [simp del]

definition pow2 :: "int \<Rightarrow> rat" where
  "pow2 e = (if 0 \<le> e then 2 ^ nat e else 1 / 2 ^ nat (- e))"

text \<open>
  The exponent of a positive rational \<open>x\<close>: the integer \<open>k\<close> with
  \<open>2^k \<le> x < 2^(k+1)\<close>. The difference of the bit lengths of numerator and denominator
  is \<open>k\<close> or \<open>k + 1\<close>.
\<close>

definition ilog2 :: "rat \<Rightarrow> int" where
  "ilog2 x =
     (let k = bit_length (fst (quotient_of x)) - bit_length (snd (quotient_of x)) in
      if pow2 k \<le> x then k else k - 1)"

definition round_half_even :: "rat \<Rightarrow> int" where
  "round_half_even x =
     (let f = \<lfloor>x\<rfloor>; d = x - of_int f in
      if d < 1 / 2 then f else if d > 1 / 2 then f + 1 else if even f then f else f + 1)"

text \<open>
  The binary64 number nearest to \<open>x\<close>, ties to even: a multiple of the unit in the last
  place, which is \<open>2^(k-52)\<close> for \<open>2^k \<le> |x| < 2^(k+1)\<close> and \<open>2^(-1074)\<close> for the
  subnormal numbers. The exponent is not bounded above here; \<open>finite64\<close> says that the
  result is below \<open>2^1024\<close>, the range of the finite binary64 numbers.
\<close>

definition binary64 :: "rat \<Rightarrow> rat" where
  "binary64 x =
     (if x = 0 then 0
      else let u = pow2 (max (ilog2 \<bar>x\<bar> - 52) (- 1074)) in
        of_int (round_half_even (x / u)) * u)"

definition finite64 :: "rat \<Rightarrow> bool" where
  "finite64 x = (x = 0 \<or> ilog2 \<bar>x\<bar> < 1024)"

text \<open>
  The conversion of an \<open>int\<close> operand to \<open>float\<close> (correctly rounded; \<open>OverflowError\<close>
  when the result is no finite number), the result of a float operation whose exact
  value is \<open>x\<close>, and the three operations that \<open>vcd_to_csv\<close> uses: \<open>x * y\<close> and
  \<open>x + y\<close> on floats, \<open>n * y\<close> for an \<open>int\<close> and a \<open>float\<close>.
\<close>

definition float_of_int :: "int \<Rightarrow> error + rat" where
  "float_of_int n =
     (let x = binary64 (of_int n) in if finite64 x then Inr x else Inl OverflowError)"

definition float_result :: "rat \<Rightarrow> error + rat" where
  "float_result x = (let r = binary64 x in if finite64 r then Inr r else Inl NotFinite)"

definition float_mul :: "rat \<Rightarrow> rat \<Rightarrow> error + rat" where
  "float_mul x y = float_result (x * y)"

definition float_add :: "rat \<Rightarrow> rat \<Rightarrow> error + rat" where
  "float_add x y = float_result (x + y)"

definition int_mul_float :: "int \<Rightarrow> rat \<Rightarrow> error + rat" where
  "int_mul_float n y = (case float_of_int n of Inl e \<Rightarrow> Inl e | Inr x \<Rightarrow> float_mul x y)"

subsection \<open>Time scale\<close>

text \<open>
  \<open>UNIT_TO_PS\<close>: the units in picoseconds, the float literals \<open>1e-3\<close>, \<open>1.0\<close>, \<open>1e3\<close>,
  \<open>1e6\<close>, \<open>1e9\<close> and \<open>1e12\<close>; all but the first are whole numbers below \<open>2^53\<close>.
\<close>

definition UNIT_TO_PS :: "(string \<times> rat) list" where
  "UNIT_TO_PS = [(''fs'', binary64 (1 / 1000)), (''ps'', 1), (''ns'', 1000), (''us'', 1000000),
                 (''ms'', 1000000000), (''s'', 1000000000000)]"

text \<open>
  \<open>parse_timescale\<close>: the loop over all lines, with the running factor and the flag
  \<open>in_ts\<close>; \<open>break\<close> returns the factor. The product \<open>factor * UNIT_TO_PS[unit]\<close> is
  one of an \<open>int\<close> and a \<open>float\<close>.
\<close>

fun parse_timescale_loop :: "rat \<Rightarrow> bool \<Rightarrow> string list \<Rightarrow> error + rat" where
  "parse_timescale_loop ts_factor_ps in_ts [] = Inr ts_factor_ps"
| "parse_timescale_loop ts_factor_ps in_ts (line # rest) =
     (let line_stripped = strip line in
      if line_stripped = ''$timescale'' then parse_timescale_loop ts_factor_ps True rest
      else if in_ts then
        (case re_ts line of
           Some (factor, unit) \<Rightarrow>
             (case map_of UNIT_TO_PS unit of
                None \<Rightarrow> Inr ts_factor_ps
              | Some u \<Rightarrow>
                  (case int_mul_float (int factor) u of
                     Inl e \<Rightarrow> Inl e
                   | Inr ts \<Rightarrow>
                       if line_stripped = ''$end'' then Inr ts
                       else parse_timescale_loop ts True rest))
         | None \<Rightarrow>
             if line_stripped = ''$end'' then Inr ts_factor_ps
             else parse_timescale_loop ts_factor_ps True rest)
      else parse_timescale_loop ts_factor_ps False rest)"

definition parse_timescale :: "string list \<Rightarrow> error + rat" where
  "parse_timescale lines = parse_timescale_loop 1 False lines"

subsection \<open>Signal declarations\<close>

text \<open>
  \<open>int(s)\<close> for an arbitrary token: an optional sign, then decimal digits, single
  underscores allowed between digits; \<open>None\<close> is \<open>ValueError\<close>.
\<close>

definition valid_int_body :: "string \<Rightarrow> bool" where
  "valid_int_body s =
     (case s of
        [] \<Rightarrow> False
      | c # cs \<Rightarrow> is_digit c \<and> is_digit (last (c # cs))
          \<and> list_all (\<lambda>x. is_digit x \<or> x = CHR ''_'') s \<and> \<not> contains ''__'' s)"

definition py_int :: "string \<Rightarrow> int option" where
  "py_int s =
     (let t = strip s;
          neg = starts_with ''-'' t;
          body = (if starts_with ''-'' t \<or> starts_with ''+'' t then tl t else t) in
      if valid_int_body body
      then Some ((if neg then - 1 else 1) * int (nat_of_digits (filter is_digit body)))
      else None)"

text \<open>\<open>parse_var_line\<close>: \<open>(width, sid, ref, rng)\<close>, or \<open>None\<close>.\<close>

definition parse_var_line :: "string \<Rightarrow> (int \<times> string \<times> string \<times> string option) option" where
  "parse_var_line line =
     (let toks = split_ws line in
      if length toks < 5 then None
      else if toks ! 0 \<noteq> ''$var'' then None
      else (case py_int (toks ! 2) of
              None \<Rightarrow> None
            | Some width \<Rightarrow>
                Some (width, toks ! 3, toks ! 4,
                      if length toks \<ge> 7 \<and> starts_with ''['' (toks ! 5) \<and> ends_with '']'' (toks ! 5)
                      then Some (toks ! 5) else None)))"

text \<open>
  Python dictionaries keep insertion order; they are association lists with distinct
  keys. \<open>d.setdefault(k, v)\<close> adds a new key at the end and leaves an old one alone;
  \<open>d[k] = v\<close> overwrites the value of an old key in place;
  \<open>d.setdefault(k, []).append(x)\<close> extends the list stored under \<open>k\<close>.
\<close>

definition setdefault :: "'k \<Rightarrow> 'v \<Rightarrow> ('k \<times> 'v) list \<Rightarrow> ('k \<times> 'v) list" where
  "setdefault k v d = (if map_of d k = None then d @ [(k, v)] else d)"

fun dict_set :: "'k \<Rightarrow> 'v \<Rightarrow> ('k \<times> 'v) list \<Rightarrow> ('k \<times> 'v) list" where
  "dict_set k v [] = [(k, v)]"
| "dict_set k v ((k', v') # d) = (if k' = k then (k, v) # d else (k', v') # dict_set k v d)"

fun dict_append :: "'k \<Rightarrow> 'v \<Rightarrow> ('k \<times> 'v list) list \<Rightarrow> ('k \<times> 'v list) list" where
  "dict_append k x [] = [(k, [x])]"
| "dict_append k x ((k', xs) # d) =
     (if k' = k then (k, xs @ [x]) # d else (k', xs) # dict_append k x d)"

text \<open>A bus declaration \<open>(ref, base, msb, lsb, width)\<close>, stored under its identifier.\<close>

type_synonym bus_def = "string \<times> string \<times> int \<times> int \<times> int"

record header =
  scalar_name2id :: "(string \<times> string) list"
  bus_defs :: "(string \<times> bus_def) list"

text \<open>The header loop of \<open>vcd_to_csv\<close>, up to the line that holds \<open>$enddefinitions\<close>.\<close>

fun parse_header :: "string list \<Rightarrow> header \<Rightarrow> header" where
  "parse_header [] h = h"
| "parse_header (line # rest) h =
     (if contains ''$enddefinitions'' line then h
      else (case parse_var_line line of
             None \<Rightarrow> parse_header rest h
           | Some (width, sid, ref, rng) \<Rightarrow>
               if width = 1
               then parse_header rest (h\<lparr>scalar_name2id := setdefault ref sid (scalar_name2id h)\<rparr>)
               else let (msb, lsb) =
                          (case rng of
                             None \<Rightarrow> (width - 1, 0)
                           | Some r \<Rightarrow>
                               (case re_range r of
                                  Some (a, b) \<Rightarrow> (int a, int b)
                                | None \<Rightarrow> (width - 1, 0)))
                    in parse_header rest
                         (h\<lparr>bus_defs := dict_set sid (ref, ref, msb, lsb, width) (bus_defs h)\<rparr>)))"

subsection \<open>Signal selection\<close>

text \<open>
  The search of \<open>bus_defs.items()\<close> for a bus named \<open>base\<close> whose range holds \<open>idx\<close>:
  the identifier, the offset of the bit in a payload written from the most significant
  bit, and the width. Both subtractions are guarded by the range test, so the offset is
  a natural number.
\<close>

fun find_bus :: "(string \<times> bus_def) list \<Rightarrow> string \<Rightarrow> int \<Rightarrow> (string \<times> nat \<times> int) option" where
  "find_bus [] base idx = None"
| "find_bus ((sid, (ref, bus_base, msb, lsb, width)) # rest) base idx =
     (if bus_base \<noteq> base then find_bus rest base idx
      else if (msb \<ge> lsb \<and> lsb \<le> idx \<and> idx \<le> msb) \<or> (msb < lsb \<and> msb \<le> idx \<and> idx \<le> lsb)
      then Some (sid, if msb \<ge> lsb then nat (msb - idx) else nat (idx - msb), width)
      else find_bus rest base idx)"

text \<open>
  One round of the loop over \<open>wanted_signals\<close>; the state is
  \<open>(busid_to_bits, missing, scalar_selected_names)\<close>.
\<close>

type_synonym bus_bits = "(string \<times> (string \<times> nat \<times> int) list) list"

definition select_name ::
  "header \<Rightarrow> bus_bits \<times> string list \<times> string list \<Rightarrow> string
     \<Rightarrow> bus_bits \<times> string list \<times> string list" where
  "select_name h s n =
     (case s of (busid_to_bits, missing, scalar_selected_names) \<Rightarrow>
        if map_of (scalar_name2id h) n \<noteq> None
        then (busid_to_bits, missing, scalar_selected_names @ [n])
        else (case re_busbit n of
                None \<Rightarrow> (busid_to_bits, missing @ [n], scalar_selected_names)
              | Some (base, idx) \<Rightarrow>
                  (case find_bus (bus_defs h) base (int idx) of
                     None \<Rightarrow> (busid_to_bits, missing @ [n], scalar_selected_names)
                   | Some (sid, bit_offset, width) \<Rightarrow>
                       (dict_append sid (n, bit_offset, width) busid_to_bits, missing,
                        scalar_selected_names))))"

definition bit_names :: "bus_bits \<Rightarrow> string list" where
  "bit_names busid_to_bits = concat (map (\<lambda>(sid, lst). map fst lst) busid_to_bits)"

text \<open>
  The selection: \<open>(signals, scalar_selected_names, busid_to_bits)\<close>. An absent or empty
  \<open>wanted_signals\<close> is false for \<open>if wanted_signals:\<close>.
\<close>

definition select_signals ::
  "header \<Rightarrow> string list option \<Rightarrow> bool \<Rightarrow> error + (string list \<times> string list \<times> bus_bits)" where
  "select_signals h wanted_signals ignore_missing =
     (case wanted_signals of
        Some (w # ws) \<Rightarrow>
          (case foldl (select_name h) ([], [], []) (w # ws) of
             (busid_to_bits, missing, scalar_selected_names) \<Rightarrow>
               if \<not> ignore_missing \<and> missing \<noteq> [] then Inl (MissingSignals missing)
               else let effective_signals =
                          filter (\<lambda>n. n \<in> set scalar_selected_names
                                       \<or> n \<in> set (bit_names busid_to_bits)) (w # ws)
                    in if effective_signals = [] then Inl EmptyEffectiveSelection
                       else Inr (effective_signals, scalar_selected_names, busid_to_bits))
      | _ \<Rightarrow>
          (let signals = sort (map fst (scalar_name2id h))
           in Inr (signals, signals, [])))"

text \<open>\<open>scalar_sid_to_names\<close>: the selected scalar names under each identifier.\<close>

fun build_sid_to_names ::
  "(string \<times> string) list \<Rightarrow> string list \<Rightarrow> (string \<times> string list) list
     \<Rightarrow> (string \<times> string list) list" where
  "build_sid_to_names n2id [] d = d"
| "build_sid_to_names n2id (name # names) d =
     (case map_of n2id name of
        None \<Rightarrow> build_sid_to_names n2id names d
      | Some sid \<Rightarrow> build_sid_to_names n2id names (dict_append sid name d))"

text \<open>\<open>cur_vals = {name: '1' for name in signals}\<close>.\<close>

definition init_vals :: "string list \<Rightarrow> (string \<rightharpoonup> string)" where
  "init_vals signals = map_of (map (\<lambda>name. (name, ''1'')) signals)"

subsection \<open>Value updates\<close>

text \<open>
  The loop over the names of a scalar identifier. The state is the value map and the
  flag \<open>changed_at_time\<close> (which only the event mode has; the uniform mode drops it).
\<close>

fun scalar_update ::
  "string \<Rightarrow> string list \<Rightarrow> (string \<rightharpoonup> string) \<times> bool \<Rightarrow> error + ((string \<rightharpoonup> string) \<times> bool)" where
  "scalar_update val [] s = Inr s"
| "scalar_update val (name # names) s =
     (case fst s name of
        None \<Rightarrow> Inl (KeyError name)
      | Some prev \<Rightarrow>
          (let new = sanitize_bit val prev in
           if new \<noteq> prev then scalar_update val names ((fst s)(name \<mapsto> new), True)
           else scalar_update val names s))"

text \<open>\<open>s.rjust(width, c)\<close>.\<close>

definition rjust :: "int \<Rightarrow> char \<Rightarrow> string \<Rightarrow> string" where
  "rjust width c s = replicate (nat (width - int (length s))) c @ s"

text \<open>The raw bit of a payload at an offset; \<open>bits[0]\<close> of an empty payload raises.\<close>

definition raw_bit_of :: "string \<Rightarrow> nat \<Rightarrow> int \<Rightarrow> error + string" where
  "raw_bit_of bits offset width =
     (case bits of
        [] \<Rightarrow> Inl IndexError
      | b0 # _ \<Rightarrow>
          (let pad_char = (if lower [b0] = ''x'' \<or> lower [b0] = ''z'' then b0 else CHR ''0'');
               bits_p = rjust width pad_char bits in
           if offset \<ge> length bits_p then Inr ''x'' else Inr [bits_p ! offset]))"

text \<open>The loop over the selected bits of a bus identifier.\<close>

fun vector_update ::
  "string \<Rightarrow> (string \<times> nat \<times> int) list \<Rightarrow> (string \<rightharpoonup> string) \<times> bool
     \<Rightarrow> error + ((string \<rightharpoonup> string) \<times> bool)" where
  "vector_update bits [] s = Inr s"
| "vector_update bits ((bit_name, offset, width) # rest) s =
     (case raw_bit_of bits offset width of
        Inl e \<Rightarrow> Inl e
      | Inr raw_bit \<Rightarrow>
          (let prev = (case fst s bit_name of None \<Rightarrow> ''1'' | Some v \<Rightarrow> v);
               new = sanitize_bit raw_bit prev in
           if new \<noteq> prev then vector_update bits rest ((fst s)(bit_name \<mapsto> new), True)
           else vector_update bits rest s))"

subsection \<open>The lines of the body\<close>

text \<open>
  The dispatch on a line after the header, in the order of the source: an empty line,
  a time marker, a line that starts with \<open>$\<close> or \<open>#\<close>, a scalar change, a vector change,
  anything else.
\<close>

datatype body_line =
  Blank
| TimeMarker nat
| Skipped
| ScalarChange string string
| VectorChange string string
| Other

definition classify :: "string \<Rightarrow> body_line" where
  "classify line =
     (case line of
        [] \<Rightarrow> Blank
      | c # _ \<Rightarrow>
          (case re_time line of
             Some t \<Rightarrow> TimeMarker t
           | None \<Rightarrow>
               if c \<in> set ''$#'' then Skipped
               else (case re_scalar line of
                       Some (val, sid) \<Rightarrow> ScalarChange val sid
                     | None \<Rightarrow>
                         (case re_vector line of
                            Some (bits, sid) \<Rightarrow> VectorChange bits sid
                          | None \<Rightarrow> Other))))"

text \<open>The variables of \<open>vcd_to_csv\<close> that both emission loops read.\<close>

record config =
  signals :: "string list"
  scalar_sid_to_names :: "(string \<times> string list) list"
  busid_to_bits :: bus_bits
  ts_sec :: rat
  tmin :: "rat option"
  tmax :: "rat option"

text \<open>An emitted row: the time in seconds and one value for each column.\<close>

type_synonym row = "rat \<times> string list"

text \<open>\<open>[cur_vals[n] for n in signals]\<close>.\<close>

fun row_vals :: "(string \<rightharpoonup> string) \<Rightarrow> string list \<Rightarrow> error + string list" where
  "row_vals vals [] = Inr []"
| "row_vals vals (n # ns) =
     (case vals n of
        None \<Rightarrow> Inl (KeyError n)
      | Some v \<Rightarrow> (case row_vals vals ns of Inl e \<Rightarrow> Inl e | Inr vs \<Rightarrow> Inr (v # vs)))"

text \<open>The variables that both emission loops update.\<close>

record engine_state =
  header_done :: bool
  cur_time_ticks :: "nat option"
  cur_vals :: "string \<rightharpoonup> string"
  out :: "row list"

subsection \<open>Event mode\<close>

record estate = engine_state +
  changed_at_time :: bool

text \<open>
  \<open>flush_if_needed\<close>: the result is the returned flag (true: the upper bound is passed,
  stop) and the state. The time \<open>t_sec = cur_time_ticks * ts_sec\<close> is the product of an
  \<open>int\<close> and a \<open>float\<close>.
\<close>

definition flush_if_needed :: "config \<Rightarrow> estate \<Rightarrow> error + (bool \<times> estate)" where
  "flush_if_needed cfg st =
     (case cur_time_ticks st of
        None \<Rightarrow> Inr (False, st)
      | Some ticks \<Rightarrow>
          if \<not> changed_at_time st then Inr (False, st)
          else (case int_mul_float (int ticks) (ts_sec cfg) of
                  Inl e \<Rightarrow> Inl e
                | Inr t_sec \<Rightarrow>
                    if (case tmin cfg of None \<Rightarrow> False | Some lo \<Rightarrow> t_sec < lo)
                    then Inr (False, st\<lparr>changed_at_time := False\<rparr>)
                    else if (case tmax cfg of None \<Rightarrow> False | Some hi \<Rightarrow> t_sec > hi)
                    then Inr (True, st)
                    else (case row_vals (cur_vals st) (signals cfg) of
                            Inl e \<Rightarrow> Inl e
                          | Inr vs \<Rightarrow>
                              Inr (False, st\<lparr>out := out st @ [(t_sec, vs)],
                                              changed_at_time := False\<rparr>))))"

text \<open>One line of the body in event mode; the flag says that the loop stops.\<close>

definition event_apply :: "config \<Rightarrow> estate \<Rightarrow> body_line \<Rightarrow> error + (bool \<times> estate)" where
  "event_apply cfg st l =
     (case l of
        Blank \<Rightarrow> Inr (False, st)
      | TimeMarker t \<Rightarrow>
          (case flush_if_needed cfg st of
             Inl e \<Rightarrow> Inl e
           | Inr (stop, st') \<Rightarrow>
               if stop then Inr (True, st') else Inr (False, st'\<lparr>cur_time_ticks := Some t\<rparr>))
      | Skipped \<Rightarrow> Inr (False, st)
      | ScalarChange val sid \<Rightarrow>
          (case map_of (scalar_sid_to_names cfg) sid of
             None \<Rightarrow> Inr (False, st)
           | Some names \<Rightarrow>
               (case scalar_update val names (cur_vals st, changed_at_time st) of
                  Inl e \<Rightarrow> Inl e
                | Inr (vals, changed) \<Rightarrow>
                    Inr (False, st\<lparr>cur_vals := vals, changed_at_time := changed\<rparr>)))
      | VectorChange bits sid \<Rightarrow>
          (case map_of (busid_to_bits cfg) sid of
             None \<Rightarrow> Inr (False, st)
           | Some entries \<Rightarrow>
               (case vector_update bits entries (cur_vals st, changed_at_time st) of
                  Inl e \<Rightarrow> Inl e
                | Inr (vals, changed) \<Rightarrow>
                    Inr (False, st\<lparr>cur_vals := vals, changed_at_time := changed\<rparr>)))
      | Other \<Rightarrow> Inr (False, st))"

text \<open>One line of the file: the header is skipped up to \<open>$enddefinitions\<close>.\<close>

definition event_line :: "config \<Rightarrow> estate \<Rightarrow> string \<Rightarrow> error + (bool \<times> estate)" where
  "event_line cfg st raw_line =
     (let line = rstrip raw_line in
      if \<not> header_done st
      then Inr (False, if contains ''$enddefinitions'' line then st\<lparr>header_done := True\<rparr> else st)
      else event_apply cfg st (classify line))"

fun event_loop :: "config \<Rightarrow> estate \<Rightarrow> string list \<Rightarrow> error + (bool \<times> estate)" where
  "event_loop cfg st [] = Inr (False, st)"
| "event_loop cfg st (raw_line # rest) =
     (case event_line cfg st raw_line of
        Inl e \<Rightarrow> Inl e
      | Inr (stop, st') \<Rightarrow> if stop then Inr (True, st') else event_loop cfg st' rest)"

definition event_init :: "(string \<rightharpoonup> string) \<Rightarrow> estate" where
  "event_init vals =
     \<lparr>header_done = False, cur_time_ticks = None, cur_vals = vals, out = [],
      changed_at_time = False\<rparr>"

text \<open>The loop and the flush after it (\<open>if not stop: flush_if_needed()\<close>).\<close>

definition event_finish :: "config \<Rightarrow> bool \<times> estate \<Rightarrow> error + estate" where
  "event_finish cfg r =
     (if fst r then Inr (snd r)
      else (case flush_if_needed cfg (snd r) of
              Inl e \<Rightarrow> Inl e
            | Inr (stop, st') \<Rightarrow> Inr st'))"

definition event_mode :: "config \<Rightarrow> (string \<rightharpoonup> string) \<Rightarrow> string list \<Rightarrow> error + row list" where
  "event_mode cfg vals lines =
     (case event_loop cfg (event_init vals) lines of
        Inl e \<Rightarrow> Inl e
      | Inr r \<Rightarrow> (case event_finish cfg r of Inl e \<Rightarrow> Inl e | Inr st \<Rightarrow> Inr (out st)))"

subsection \<open>Uniform-grid mode\<close>

record ustate = engine_state +
  last_time_sec :: "rat option"
  next_sample_time :: "rat option"

text \<open>
  The \<open>while\<close> loop of \<open>emit_uniform_between\<close>, from the sample time \<open>nst\<close>: the result
  is the next sample time and the rows written. The next sample time is the float sum
  \<open>next_sample_time + uniform_step\<close>; when that sum is the sample time itself (a step of
  zero, or one below half a unit in the last place of the sample time) the loop does
  not end.
\<close>

partial_function (option) emit_rows ::
  "config \<Rightarrow> rat \<Rightarrow> (string \<rightharpoonup> string) \<Rightarrow> rat \<Rightarrow> rat \<Rightarrow> row list
     \<Rightarrow> (error + rat \<times> row list) option" where
  "emit_rows cfg uniform_step vals t_to nst rows =
     (if nst < t_to \<and> (case tmax cfg of None \<Rightarrow> True | Some hi \<Rightarrow> nst \<le> hi)
      then (case row_vals vals (signals cfg) of
              Inl e \<Rightarrow> Some (Inl e)
            | Inr vs \<Rightarrow>
                (case float_add nst uniform_step of
                   Inl e \<Rightarrow> Some (Inl e)
                 | Inr nst' \<Rightarrow>
                     emit_rows cfg uniform_step vals t_to nst' (rows @ [(nst, vs)])))
      else Some (Inr (nst, rows)))"

declare emit_rows.simps [code]

definition emit_uniform_between ::
  "config \<Rightarrow> rat \<Rightarrow> ustate \<Rightarrow> rat \<Rightarrow> rat \<Rightarrow> (error + ustate) option" where
  "emit_uniform_between cfg uniform_step st t_from t_to =
     (if (case tmax cfg of None \<Rightarrow> False | Some hi \<Rightarrow> t_from > hi) then Some (Inr st)
      else (let nst =
                  (case next_sample_time st of
                     Some n \<Rightarrow> n
                   | None \<Rightarrow>
                       (case tmin cfg of
                          None \<Rightarrow> t_from
                        | Some lo \<Rightarrow> if lo > t_from then lo else t_from))
            in case emit_rows cfg uniform_step (cur_vals st) t_to nst (out st) of
                 None \<Rightarrow> None
               | Some (Inl e) \<Rightarrow> Some (Inl e)
               | Some (Inr (nst', rows)) \<Rightarrow>
                   Some (Inr (st\<lparr>out := rows, next_sample_time := Some nst'\<rparr>))))"

text \<open>
  One line of the body in uniform mode. A time marker first computes
  \<open>new_sec = new_ticks * ts_sec\<close>, the product of an \<open>int\<close> and a \<open>float\<close>. The two time
  variables are set together; a time marker that found only \<open>last_time_sec\<close> unset would
  compare \<open>None\<close> with a number.
\<close>

definition uniform_apply ::
  "config \<Rightarrow> rat \<Rightarrow> ustate \<Rightarrow> body_line \<Rightarrow> (error + ustate) option" where
  "uniform_apply cfg uniform_step st l =
     (case l of
        Blank \<Rightarrow> Some (Inr st)
      | TimeMarker new_ticks \<Rightarrow>
          (case int_mul_float (int new_ticks) (ts_sec cfg) of
             Inl e \<Rightarrow> Some (Inl e)
           | Inr new_sec \<Rightarrow>
               (case cur_time_ticks st of
                  None \<Rightarrow> Some (Inr (st\<lparr>cur_time_ticks := Some new_ticks,
                                         last_time_sec := Some new_sec\<rparr>))
                | Some ticks \<Rightarrow>
                    (case last_time_sec st of
                       None \<Rightarrow> Some (Inl TypeError)
                     | Some last_sec \<Rightarrow>
                         (case emit_uniform_between cfg uniform_step st last_sec new_sec of
                            None \<Rightarrow> None
                          | Some (Inl e) \<Rightarrow> Some (Inl e)
                          | Some (Inr st') \<Rightarrow>
                              Some (Inr (st'\<lparr>cur_time_ticks := Some new_ticks,
                                             last_time_sec := Some new_sec\<rparr>))))))
      | Skipped \<Rightarrow> Some (Inr st)
      | ScalarChange val sid \<Rightarrow>
          (case map_of (scalar_sid_to_names cfg) sid of
             None \<Rightarrow> Some (Inr st)
           | Some names \<Rightarrow>
               (case scalar_update val names (cur_vals st, False) of
                  Inl e \<Rightarrow> Some (Inl e)
                | Inr (vals, changed) \<Rightarrow> Some (Inr (st\<lparr>cur_vals := vals\<rparr>))))
      | VectorChange bits sid \<Rightarrow>
          (case map_of (busid_to_bits cfg) sid of
             None \<Rightarrow> Some (Inr st)
           | Some entries \<Rightarrow>
               (case vector_update bits entries (cur_vals st, False) of
                  Inl e \<Rightarrow> Some (Inl e)
                | Inr (vals, changed) \<Rightarrow> Some (Inr (st\<lparr>cur_vals := vals\<rparr>))))
      | Other \<Rightarrow> Some (Inr st))"

definition uniform_line ::
  "config \<Rightarrow> rat \<Rightarrow> ustate \<Rightarrow> string \<Rightarrow> (error + ustate) option" where
  "uniform_line cfg uniform_step st raw_line =
     (let line = rstrip raw_line in
      if \<not> header_done st
      then Some (Inr (if contains ''$enddefinitions'' line then st\<lparr>header_done := True\<rparr> else st))
      else uniform_apply cfg uniform_step st (classify line))"

fun uniform_loop ::
  "config \<Rightarrow> rat \<Rightarrow> ustate \<Rightarrow> string list \<Rightarrow> (error + ustate) option" where
  "uniform_loop cfg uniform_step st [] = Some (Inr st)"
| "uniform_loop cfg uniform_step st (raw_line # rest) =
     (case uniform_line cfg uniform_step st raw_line of
        None \<Rightarrow> None
      | Some (Inl e) \<Rightarrow> Some (Inl e)
      | Some (Inr st') \<Rightarrow> uniform_loop cfg uniform_step st' rest)"

definition uniform_init :: "(string \<rightharpoonup> string) \<Rightarrow> ustate" where
  "uniform_init vals =
     \<lparr>header_done = False, cur_time_ticks = None, cur_vals = vals, out = [],
      last_time_sec = None, next_sample_time = None\<rparr>"

text \<open>The emission after the loop, up to the last time or the upper bound if later.\<close>

definition uniform_finish :: "config \<Rightarrow> rat \<Rightarrow> ustate \<Rightarrow> (error + ustate) option" where
  "uniform_finish cfg uniform_step st =
     (case cur_time_ticks st of
        None \<Rightarrow> Some (Inr st)
      | Some ticks \<Rightarrow>
          (case last_time_sec st of
             None \<Rightarrow> Some (Inr st)
           | Some last_sec \<Rightarrow>
               (let end_sec = (case tmax cfg of
                                 None \<Rightarrow> last_sec
                               | Some hi \<Rightarrow> if hi > last_sec then hi else last_sec)
                in emit_uniform_between cfg uniform_step st last_sec end_sec)))"

definition uniform_mode ::
  "config \<Rightarrow> rat \<Rightarrow> (string \<rightharpoonup> string) \<Rightarrow> string list \<Rightarrow> (error + row list) option" where
  "uniform_mode cfg uniform_step vals lines =
     (case uniform_loop cfg uniform_step (uniform_init vals) lines of
        None \<Rightarrow> None
      | Some (Inl e) \<Rightarrow> Some (Inl e)
      | Some (Inr st) \<Rightarrow>
          (case uniform_finish cfg uniform_step st of
             None \<Rightarrow> None
           | Some (Inl e) \<Rightarrow> Some (Inl e)
           | Some (Inr st') \<Rightarrow> Some (Inr (out st'))))"

subsection \<open>The table writer and the conversion\<close>

definition digit_char :: "int \<Rightarrow> char" where
  "digit_char d = ''0123456789'' ! nat d"

text \<open>\<open>str(n)\<close> for an integer that is not negative.\<close>

function decimal :: "int \<Rightarrow> string" where
  "decimal n = (if n < 10 then [digit_char n] else decimal (n div 10) @ [digit_char (n mod 10)])"
  by pat_completeness auto
termination
  by (relation "measure nat") auto

declare decimal.simps [simp del]

text \<open>
  \<open>f"{t:.12f}"\<close>: the sign, the integer part and twelve fractional digits of the exact
  value of the float, rounded to nearest, ties to even.
\<close>

definition fmt12 :: "rat \<Rightarrow> string" where
  "fmt12 x =
     (let n = round_half_even (\<bar>x\<bar> * 10 ^ 12);
          ds = decimal (n mod 10 ^ 12) in
      (if x < 0 then ''-'' else []) @ decimal (n div 10 ^ 12) @ ''.''
        @ replicate (12 - length ds) (CHR ''0'') @ ds)"

text \<open>\<open>",".join(row) + "\n"\<close> for a row and for the header.\<close>

definition render_row :: "row \<Rightarrow> string" where
  "render_row r = join '','' (fmt12 (fst r) # snd r) @ [CHR 0x0A]"

definition render_header :: "string list \<Rightarrow> string" where
  "render_header sigs = ''Time[s],'' @ join '','' sigs @ [CHR 0x0A]"

text \<open>The emission loop that the argument \<open>uniform_step\<close> selects.\<close>

definition emit_mode ::
  "config \<Rightarrow> rat option \<Rightarrow> (string \<rightharpoonup> string) \<Rightarrow> string list \<Rightarrow> (error + row list) option" where
  "emit_mode cfg uniform_step vals lines =
     (case uniform_step of
        Some step \<Rightarrow> uniform_mode cfg step vals lines
      | None \<Rightarrow> Some (event_mode cfg vals lines))"

text \<open>The variables of \<open>vcd_to_csv\<close> when the emission starts.\<close>

definition mk_config ::
  "rat \<Rightarrow> header \<Rightarrow> string list \<times> string list \<times> bus_bits \<Rightarrow> rat option \<Rightarrow> rat option
     \<Rightarrow> config" where
  "mk_config ts h sel t_min t_max =
     (case sel of (sigs, scalar_selected_names, bits) \<Rightarrow>
        \<lparr>signals = sigs,
         scalar_sid_to_names = build_sid_to_names (scalar_name2id h) scalar_selected_names [],
         busid_to_bits = bits,
         ts_sec = ts,
         tmin = t_min, tmax = t_max\<rparr>)"

text \<open>
  \<open>ts_sec = ts_ps * 1e-12\<close>, with \<open>ts_ps = parse_timescale(lines)\<close>: the seconds of a
  tick, computed before the header is read.
\<close>

definition tick_seconds :: "string list \<Rightarrow> error + rat" where
  "tick_seconds lines =
     (case parse_timescale lines of
        Inl e \<Rightarrow> Inl e
      | Inr ts_ps \<Rightarrow> float_mul ts_ps (binary64 (1 / 10 ^ 12)))"

definition empty_header :: header where
  "empty_header = \<lparr>scalar_name2id = [], bus_defs = []\<rparr>"

text \<open>
  \<open>vcd_to_csv\<close> up to the writing: the columns and the rows, from the lines of the
  input file and the arguments of the call. The bounds and the step are floats.
\<close>

definition vcd_rows ::
  "string list \<Rightarrow> string list option \<Rightarrow> rat option \<Rightarrow> rat option \<Rightarrow> bool \<Rightarrow> rat option
     \<Rightarrow> (error + string list \<times> row list) option" where
  "vcd_rows lines wanted_signals t_min t_max ignore_missing uniform_step =
     (case tick_seconds lines of
        Inl e \<Rightarrow> Some (Inl e)
      | Inr ts \<Rightarrow>
          (let h = parse_header lines empty_header in
           if scalar_name2id h = [] \<and> bus_defs h = [] then Some (Inl NoSignalsFound)
           else (case select_signals h wanted_signals ignore_missing of
                   Inl e \<Rightarrow> Some (Inl e)
                 | Inr sel \<Rightarrow>
                     (case emit_mode (mk_config ts h sel t_min t_max) uniform_step
                             (init_vals (fst sel)) lines of
                        None \<Rightarrow> None
                      | Some (Inl e) \<Rightarrow> Some (Inl e)
                      | Some (Inr rows) \<Rightarrow> Some (Inr (fst sel, rows))))))"

text \<open>The strings written to the output file.\<close>

definition vcd_to_csv ::
  "string list \<Rightarrow> string list option \<Rightarrow> rat option \<Rightarrow> rat option \<Rightarrow> bool \<Rightarrow> rat option
     \<Rightarrow> (error + string list) option" where
  "vcd_to_csv lines wanted_signals t_min t_max ignore_missing uniform_step =
     (case vcd_rows lines wanted_signals t_min t_max ignore_missing uniform_step of
        None \<Rightarrow> None
      | Some (Inl e) \<Rightarrow> Some (Inl e)
      | Some (Inr (sigs, rows)) \<Rightarrow> Some (Inr (render_header sigs # map render_row rows)))"

subsection \<open>Notions of the specification and example inputs\<close>

text \<open>The lines of the header: those before the line that holds \<open>$enddefinitions\<close>.\<close>

definition header_lines :: "string list \<Rightarrow> string list" where
  "header_lines lines = takeWhile (\<lambda>l. \<not> contains ''$enddefinitions'' l) lines"

text \<open>
  The declared names of the single-bit signals, in the order of their declarations (a
  name declared twice is listed twice).
\<close>

definition declared_scalar_names :: "string list \<Rightarrow> string list" where
  "declared_scalar_names lines =
     List.map_filter
       (\<lambda>l. case parse_var_line l of
               None \<Rightarrow> None
             | Some (width, sid, ref, rng) \<Rightarrow> if width = 1 then Some ref else None)
       (header_lines lines)"

text \<open>
  A bus declaration covers the index \<open>idx\<close> of a bus named \<open>base\<close> when it declares that
  name and \<open>idx\<close> lies between the two ends of its range, in whichever order they are
  written.
\<close>

definition covers :: "string \<Rightarrow> int \<Rightarrow> string \<times> bus_def \<Rightarrow> bool" where
  "covers base idx d =
     (case d of (sid, (ref, bus_base, msb, lsb, width)) \<Rightarrow>
        bus_base = base \<and> min msb lsb \<le> idx \<and> idx \<le> max msb lsb)"

text \<open>
  What a covering declaration gives for the index: its identifier, the distance from
  the most significant bit position to the index, and its width.
\<close>

definition msb_first :: "string \<times> bus_def \<Rightarrow> int \<Rightarrow> string \<times> nat \<times> int" where
  "msb_first d idx =
     (case d of (sid, (ref, bus_base, msb, lsb, width)) \<Rightarrow> (sid, nat \<bar>msb - idx\<bar>, width))"

text \<open>A header with a descending bus \<open>data[7:0]\<close> and an ascending bus \<open>rev[0:3]\<close>.\<close>

definition bus_example :: "string list" where
  "bus_example =
     [''$var wire 8 # data [7:0] $end'', ''$var wire 4 % rev [0:3] $end'',
      ''$enddefinitions $end'']"

text \<open>
  The scenario of the specification: scalar \<open>clk\<close> with identifier \<open>!\<close>, bus
  \<open>data[1:0]\<close> with the double quote as identifier; \<open>1!\<close> and \<open>b10 "\<close> at tick 0,
  \<open>0!\<close> at tick 5.
\<close>

definition clk_data_example :: "string list" where
  "clk_data_example =
     [''$var wire 1 ! clk $end'', ''$var wire 2 '' @ [CHR 0x22] @ '' data [1:0] $end'',
      ''$enddefinitions $end'', ''#0'', ''1!'', ''b10 '' @ [CHR 0x22], ''#5'', ''0!'']"

text \<open>The scenario continued: \<open>1!\<close> at tick 7 and \<open>0!\<close> at tick 9.\<close>

definition clk_toggle_example :: "string list" where
  "clk_toggle_example = clk_data_example @ [''#7'', ''1!'', ''#9'', ''0!'']"

text \<open>
  The float that the source writes \<open>1e-12\<close>; it is also the default \<open>ts_sec\<close>, the
  product \<open>1.0 * 1e-12\<close>. The time of a tick at that scale is \<open>ticks * ts_sec\<close>.
\<close>

definition picosecond :: rat where
  "picosecond = binary64 (1 / 10 ^ 12)"

definition ps_tick :: "nat \<Rightarrow> rat" where
  "ps_tick ticks = binary64 (of_nat ticks * picosecond)"

text \<open>
  The variables of \<open>vcd_to_csv\<close> for the scenario when the selection is \<open>clk\<close>,
  \<open>data[0]\<close>, with the bounds left open.
\<close>

definition clk_data_config :: "rat option \<Rightarrow> rat option \<Rightarrow> config" where
  "clk_data_config t_min t_max =
     \<lparr>signals = [''clk'', ''data[0]''],
      scalar_sid_to_names = [(''!'', [''clk''])],
      busid_to_bits = [([CHR 0x22], [(''data[0]'', 1, 2)])],
      ts_sec = picosecond, tmin = t_min, tmax = t_max\<rparr>"

text \<open>A state of the event mode at tick 7 of the continued scenario, with a change pending.\<close>

definition pending_state :: "nat \<Rightarrow> estate" where
  "pending_state ticks =
     \<lparr>header_done = True, cur_time_ticks = Some ticks,
      cur_vals = [''clk'' \<mapsto> ''1'', ''data[0]'' \<mapsto> ''0''],
      out = [(0, [''1'', ''0'']), (ps_tick 5, [''0'', ''0''])],
      changed_at_time = True\<rparr>"



text \<open>Two scalars declared in the order \<open>b\<close>, \<open>a\<close>.\<close>

definition two_scalars_example :: "string list" where
  "two_scalars_example =
     [''$var wire 1 ! b $end'', ''$var wire 1 # a $end'', ''$enddefinitions $end'']"

text \<open>
  The bit that a payload holds for an offset counted from the most significant bit of a
  bus of the given width, when the payload is right-justified: positions left of the
  payload hold the padding character (the leading character of the payload if it is
  \<open>x\<close>, \<open>X\<close>, \<open>z\<close> or \<open>Z\<close>, else \<open>0\<close>), positions beyond the padded payload are
  unresolved.
\<close>

definition right_justified_bit :: "string \<Rightarrow> nat \<Rightarrow> int \<Rightarrow> string" where
  "right_justified_bit bits offset width =
     (case bits of
        [] \<Rightarrow> ''x''
      | b0 # bs \<Rightarrow>
          (let pad = (if b0 \<in> set ''xXzZ'' then b0 else CHR ''0'');
               n = length bits; w = nat width in
           if offset < w - n then [pad]
           else if offset < max w n then [bits ! (offset - (w - n))]
           else ''x''))"

text \<open>Every column of the list holds \<open>0\<close> or \<open>1\<close> in the value map.\<close>

definition resolved :: "(string \<rightharpoonup> string) \<Rightarrow> string list \<Rightarrow> bool" where
  "resolved vals sigs = list_all (\<lambda>n. vals n = Some ''0'' \<or> vals n = Some ''1'') sigs"

text \<open>A state of the event mode without the rows written before the time \<open>lo\<close>.\<close>

definition drop_early :: "rat \<Rightarrow> estate \<Rightarrow> estate" where
  "drop_early lo st = st\<lparr>out := filter (\<lambda>r. lo \<le> fst r) (out st)\<rparr>"

section \<open>Properties\<close>

lemma sanitize_bit_binary: "sanitize_bit val prev = ''0'' \<or> sanitize_bit val prev = ''1''"
  by (simp add: sanitize_bit_def Let_def)

text \<open>
  C1. For every previous value, the sanitizer returns the raw bits \<open>0\<close> and \<open>1\<close>
  unchanged; the high-impedance marker \<open>z\<close> or \<open>Z\<close> becomes \<open>1\<close> whatever the previous
  value is; the unresolved marker \<open>x\<close> or \<open>X\<close> becomes the previous value when that is
  \<open>0\<close> or \<open>1\<close>, and \<open>1\<close> otherwise.
\<close>

theorem sanitize_bit_rule:
  "sanitize_bit ''0'' prev = ''0'' \<and> sanitize_bit ''1'' prev = ''1''
   \<and> sanitize_bit ''z'' prev = ''1'' \<and> sanitize_bit ''Z'' prev = ''1''
   \<and> sanitize_bit ''x'' prev = (if prev = ''0'' \<or> prev = ''1'' then prev else ''1'')
   \<and> sanitize_bit ''X'' prev = (if prev = ''0'' \<or> prev = ''1'' then prev else ''1'')"
  by (simp add: sanitize_bit_def lower_def lower_char_def)

theorem sanitize_bit_rule_witness:
  "sanitize_bit ''0'' ''1'' = ''0'' \<and> sanitize_bit ''1'' ''0'' = ''1''
   \<and> sanitize_bit ''z'' ''0'' = ''1'' \<and> sanitize_bit ''Z'' ''0'' = ''1''
   \<and> sanitize_bit ''x'' ''0'' = ''0'' \<and> sanitize_bit ''X'' ''x'' = ''1''"
  using sanitize_bit_rule [of "''1''"] sanitize_bit_rule [of "''0''"]
    sanitize_bit_rule [of "''x''"]
  by simp

subsection \<open>Bus-bit offsets\<close>

lemma find_bus_find:
  "find_bus defs base idx
     = map_option (\<lambda>d. msb_first d idx) (List.find (covers base idx) defs)"
  by (induction defs base idx rule: find_bus.induct) (auto simp: covers_def msb_first_def)

lemma msb_first_offset:
  assumes "covers base idx (sid, (ref, b, msb, lsb, width))"
  shows "msb_first (sid, (ref, b, msb, lsb, width)) idx
           = (sid, nat (if lsb \<le> msb then msb - idx else idx - msb), width)
         \<and> 0 \<le> (if lsb \<le> msb then msb - idx else idx - msb)"
  using assms by (auto simp: covers_def msb_first_def)

lemma digit_char_digit:
  assumes "0 \<le> d" and "d < 10"
  shows "is_digit (digit_char d) \<and> int (digit_val (digit_char d)) = d"
proof -
  from assms have "d = 0 \<or> d = 1 \<or> d = 2 \<or> d = 3 \<or> d = 4 \<or> d = 5 \<or> d = 6 \<or> d = 7
      \<or> d = 8 \<or> d = 9"
    by arith
  then show ?thesis
    by (elim disjE) (simp_all add: digit_char_def is_digit_def digit_val_def)
qed

lemma nat_of_digits_snoc: "nat_of_digits (ds @ [c]) = 10 * nat_of_digits ds + digit_val c"
  by (simp add: nat_of_digits_def)

lemma decimal_digits:
  "0 \<le> n \<Longrightarrow> list_all is_digit (decimal n) \<and> decimal n \<noteq> []
     \<and> int (nat_of_digits (decimal n)) = n"
proof (induction n rule: decimal.induct)
  case (1 n)
  show ?case
  proof (cases "n < 10")
    case True
    with "1.prems" digit_char_digit [of n] show ?thesis
      by (subst (1 2 3) decimal.simps) (simp add: nat_of_digits_def)
  next
    case False
    with "1.prems" have "0 \<le> n div 10" by simp
    from "1.IH" [OF False this] digit_char_digit [of "n mod 10"] False show ?thesis
      by (subst (1 2 3) decimal.simps) (simp add: nat_of_digits_snoc)
  qed
qed

text \<open>
  The name of a bit of a bus, \<open>base[i]\<close> with the index in decimal, as the expansion of
  a bus name writes it, is read back as the base and the index.
\<close>

lemma re_busbit_bit:
  assumes "base \<noteq> []" and "CHR 0x0A \<notin> set base"
  shows "re_busbit (base @ ''['' @ decimal (int i) @ '']'') = Some (base, i)"
proof -
  let ?ds = "decimal (int i)"
  from decimal_digits [of "int i"] have d: "list_all is_digit ?ds" "?ds \<noteq> []"
    "nat_of_digits ?ds = i" by simp_all
  have nd: "\<not> is_digit (CHR ''['')" by (simp add: is_digit_def)
  from d(1) have a: "\<And>x. x \<in> set (rev ?ds) \<Longrightarrow> is_digit x"
    by (simp add: list_all_iff)
  from takeWhile_append2 [of "rev ?ds" is_digit "CHR ''['' # rev base", OF a] nd
  have t: "takeWhile is_digit (rev ?ds @ CHR ''['' # rev base) = rev ?ds"
    by simp
  from dropWhile_append2 [of "rev ?ds" is_digit "CHR ''['' # rev base", OF a] nd
  have dr: "dropWhile is_digit (rev ?ds @ CHR ''['' # rev base) = CHR ''['' # rev base"
    by simp
  show ?thesis
    using assms d(2,3) by (simp add: re_busbit_def Let_def t dr)
qed

lemma select_name_bit:
  assumes "map_of (scalar_name2id h) n = None" and "re_busbit n = Some (base, i)"
  shows "select_name h (bits, missing, names) n
     = (case List.find (covers base (int i)) (bus_defs h) of
          None \<Rightarrow> (bits, missing @ [n], names)
        | Some d \<Rightarrow>
            (case msb_first d (int i) of
               (sid, off, width) \<Rightarrow> (dict_append sid (n, off, width) bits, missing, names)))"
  using assms
  by (simp add: select_name_def find_bus_find split: option.split prod.split)

text \<open>
  C2. The search for a bus named \<open>base\<close> whose range holds \<open>idx\<close> returns what the first
  declaration of \<open>bus_defs\<close> that covers \<open>idx\<close> gives, and nothing when there is none: the
  identifier of that declaration, its width, and as offset the distance from its most
  significant bit position \<open>msb\<close> to \<open>idx\<close>, which is \<open>msb - idx\<close> for a descending range
  and \<open>idx - msb\<close> for an ascending one. A requested name \<open>base[i]\<close> that is no scalar
  name and that such a declaration covers is selected under the identifier of the
  declaration with that offset. For a declared range \<open>[7:0]\<close> and the index 3 the offset
  is 4; for a declared range \<open>[0:3]\<close> and the index 1 it is 1.
\<close>

theorem bus_bit_offset:
  "find_bus defs base idx
     = map_option (\<lambda>d. msb_first d idx) (List.find (covers base idx) defs)
   \<and> (covers base idx (sid, (ref, b, msb, lsb, width)) \<longrightarrow>
        msb_first (sid, (ref, b, msb, lsb, width)) idx
          = (sid, nat (if lsb \<le> msb then msb - idx else idx - msb), width)
        \<and> 0 \<le> (if lsb \<le> msb then msb - idx else idx - msb))
   \<and> (name \<noteq> [] \<and> CHR 0x0A \<notin> set name
        \<and> map_of (scalar_name2id h) (name @ ''['' @ decimal (int i) @ '']'') = None
        \<and> List.find (covers name (int i)) (bus_defs h) = Some d \<longrightarrow>
        select_name h (bits, missing, names) (name @ ''['' @ decimal (int i) @ '']'')
          = (case msb_first d (int i) of
               (sid, off, width) \<Rightarrow>
                 (dict_append sid (name @ ''['' @ decimal (int i) @ '']'', off, width) bits,
                  missing, names)))
   \<and> find_bus [(sid', (ref', base, 7, 0, width'))] base 3 = Some (sid', 4, width')
   \<and> find_bus [(sid', (ref', base, 0, 3, width'))] base 1 = Some (sid', 1, width')"
proof (intro conjI impI)
  show "find_bus defs base idx
     = map_option (\<lambda>d. msb_first d idx) (List.find (covers base idx) defs)"
    by (rule find_bus_find)
next
  assume "covers base idx (sid, (ref, b, msb, lsb, width))"
  from msb_first_offset [OF this]
  show "msb_first (sid, (ref, b, msb, lsb, width)) idx
          = (sid, nat (if lsb \<le> msb then msb - idx else idx - msb), width)"
    and "0 \<le> (if lsb \<le> msb then msb - idx else idx - msb)"
    by simp_all
next
  let ?n = "name @ ''['' @ decimal (int i) @ '']''"
  assume a: "name \<noteq> [] \<and> CHR 0x0A \<notin> set name \<and> map_of (scalar_name2id h) ?n = None
        \<and> List.find (covers name (int i)) (bus_defs h) = Some d"
  with re_busbit_bit [of name i] have r: "re_busbit ?n = Some (name, i)" by simp
  from a have "map_of (scalar_name2id h) ?n = None" by simp
  from select_name_bit [OF this r, of bits missing names] a
  show "select_name h (bits, missing, names) ?n
          = (case msb_first d (int i) of
               (sid, off, width) \<Rightarrow> (dict_append sid (?n, off, width) bits, missing, names))"
    by (simp split: prod.split)
qed simp_all

lemma bus_example_selection:
  "select_signals (parse_header bus_example empty_header) (Some [''data[3]'', ''rev[1]'']) False
     = Inr ([''data[3]'', ''rev[1]''], [],
            [(''#'', [(''data[3]'', 4, 8)]), (''%'', [(''rev[1]'', 1, 4)])])"
  by code_simp

theorem bus_bit_offset_witness:
  "find_bus (bus_defs (parse_header bus_example empty_header)) ''rev'' 1 = Some (''%'', 1, 4)
   \<and> find_bus (bus_defs (parse_header bus_example empty_header)) ''data'' 3 = Some (''#'', 4, 8)
   \<and> covers ''rev'' 1 (''%'', (''rev'', ''rev'', 0, 3, 4))
   \<and> msb_first (''%'', (''rev'', ''rev'', 0, 3, 4)) 1 = (''%'', 1, 4)
   \<and> List.find (covers ''rev'' (int 1)) (bus_defs (parse_header bus_example empty_header))
       = Some (''%'', (''rev'', ''rev'', 0, 3, 4))
   \<and> ''rev'' @ ''['' @ decimal (int 1) @ '']'' = ''rev[1]''
   \<and> select_name (parse_header bus_example empty_header) ([], [], []) ''rev[1]''
       = ([(''%'', [(''rev[1]'', 1, 4)])], [], [])"
proof -
  let ?h = "parse_header bus_example empty_header"
  let ?d = "(''%'', (''rev'', ''rev'', 0 :: int, 3 :: int, 4 :: int))"
  have f: "List.find (covers ''rev'' 1) (bus_defs ?h) = Some ?d"
    "List.find (covers ''data'' 3) (bus_defs ?h) = Some (''#'', (''data'', ''data'', 7, 0, 8))"
    by code_simp+
  have c: "covers ''rev'' 1 ?d" by code_simp
  have n: "''rev'' @ ''['' @ decimal (int 1) @ '']'' = ''rev[1]''" by code_simp
  have h: "''rev'' \<noteq> [] \<and> CHR 0x0A \<notin> set ''rev''
        \<and> map_of (scalar_name2id ?h) (''rev'' @ ''['' @ decimal (int 1) @ '']'') = None
        \<and> List.find (covers ''rev'' (int 1)) (bus_defs ?h) = Some ?d"
    by code_simp
  note w = bus_bit_offset [where defs = "bus_defs ?h" and base = "''rev''" and idx = 1
      and sid = "''%''" and ref = "''rev''" and b = "''rev''" and msb = 0 and lsb = 3
      and width = 4 and name = "''rev''" and h = ?h and i = 1 and d = ?d and bits = "[]"
      and missing = "[]" and names = "[]"]
  note w1 = w [THEN conjunct1]
  note w2 = w [THEN conjunct2, THEN conjunct1, THEN mp, OF c, THEN conjunct1]
  note w3 = w [THEN conjunct2, THEN conjunct2, THEN conjunct1, THEN mp, OF h]
  note v = bus_bit_offset [where defs = "bus_defs ?h" and base = "''data''" and idx = 3,
      THEN conjunct1]
  have m: "msb_first ?d 1 = (''%'', 1, 4)" using w2 by simp
  have m': "msb_first (''#'', (''data'', ''data'', 7, 0, 8)) 3 = (''#'', 4, 8)"
    by (simp add: msb_first_def)
  show ?thesis
  proof (intro conjI)
    show "find_bus (bus_defs ?h) ''rev'' 1 = Some (''%'', 1, 4)"
      using w1 f(1) m by simp
    show "find_bus (bus_defs ?h) ''data'' 3 = Some (''#'', 4, 8)"
      using v f(2) m' by simp
    show "covers ''rev'' 1 ?d" by (rule c)
    show "msb_first ?d 1 = (''%'', 1, 4)" by (rule m)
    show "List.find (covers ''rev'' (int 1)) (bus_defs ?h) = Some ?d"
      using h by simp
    show "''rev'' @ ''['' @ decimal (int 1) @ '']'' = ''rev[1]''" by (rule n)
    show "select_name ?h ([], [], []) ''rev[1]'' = ([(''%'', [(''rev[1]'', 1, 4)])], [], [])"
      using w3 m unfolding n by simp
  qed
qed

subsection \<open>The scenario of the specification\<close>

lemma clk_data_rows:
  "vcd_rows clk_data_example None None None False None
     = Some (Inr ([''clk''], [(ps_tick 5, [''0''])]))"
  by code_simp

lemma clk_data_csv:
  "vcd_to_csv clk_data_example None None None False None
     = Some (Inr [''Time[s],clk'' @ [CHR 0x0A], ''0.000000000005,0'' @ [CHR 0x0A]])"
  unfolding vcd_to_csv_def clk_data_rows by code_simp

lemma ps_tick_5: "ps_tick 5 = binary64 (5 / 10 ^ 12)"
  by code_simp

text \<open>
  C3, as the specification states it, fails: the scenario does not produce the two rows
  \<open>0.000000000000,1\<close> and \<open>0.000000000005,0\<close>.
\<close>

theorem clk_data_scenario_counterexample:
  "vcd_to_csv clk_data_example None None None False None
     \<noteq> Some (Inr [''Time[s],clk'' @ [CHR 0x0A], ''0.000000000000,1'' @ [CHR 0x0A],
                   ''0.000000000005,0'' @ [CHR 0x0A]])"
  unfolding clk_data_csv by simp

text \<open>
  C3, amended. In event mode with the default selection and no time bounds, the scenario
  writes the header line \<open>Time[s],clk\<close> and exactly one row, at tick 5 (five
  picoseconds, the default time scale: the float \<open>5 * (1.0 * 1e-12)\<close>, which is the float
  \<open>5e-12\<close>) with the value 0. The event \<open>1!\<close> at tick 0 leaves \<open>clk\<close> at its initial
  value 1, so no row is written for tick 0; the bits of \<open>data\<close> are no columns.
\<close>

theorem clk_data_scenario:
  "vcd_rows clk_data_example None None None False None
     = Some (Inr ([''clk''], [(ps_tick 5, [''0''])]))
   \<and> ps_tick 5 = binary64 (5 / 10 ^ 12)
   \<and> vcd_to_csv clk_data_example None None None False None
     = Some (Inr [''Time[s],clk'' @ [CHR 0x0A], ''0.000000000005,0'' @ [CHR 0x0A]])"
  by (intro conjI) (rule clk_data_rows, rule ps_tick_5, rule clk_data_csv)

subsection \<open>Alignment of vector payloads\<close>

lemma lower_x: "lower [c] = ''x'' \<longleftrightarrow> c = CHR ''x'' \<or> c = CHR ''X''"
  by (auto simp: lower_def lower_char_def)

lemma lower_z: "lower [c] = ''z'' \<longleftrightarrow> c = CHR ''z'' \<or> c = CHR ''Z''"
  by (auto simp: lower_def lower_char_def)

lemma nat_diff_int: "nat (w - int n) = nat w - n"
  by arith

lemma raw_bit_of_aligned:
  "raw_bit_of (b0 # bs) offset width = Inr (right_justified_bit (b0 # bs) offset width)"
  unfolding raw_bit_of_def right_justified_bit_def rjust_def Let_def nat_diff_int
  by (auto simp: lower_x lower_z nth_append)

text \<open>
  C7. For a payload that is not empty, the raw bit read for a selected bit is the bit of
  the right-justified payload at the offset of the selected bit: the padding character
  left of the payload, the payload's own bit inside it, and the unresolved marker \<open>x\<close>
  at or beyond the length of the padded payload. One round of the loop over the
  selected bits sanitizes this raw bit against the previous value of the column (\<open>1\<close>
  when the column has none) and stores it when it differs.
\<close>

theorem vector_bit_alignment:
  "raw_bit_of (b0 # bs) offset width = Inr (right_justified_bit (b0 # bs) offset width)
   \<and> vector_update (b0 # bs) ((bit_name, offset, width) # rest) s =
       (let prev = (case fst s bit_name of None \<Rightarrow> ''1'' | Some v \<Rightarrow> v);
            new = sanitize_bit (right_justified_bit (b0 # bs) offset width) prev
        in vector_update (b0 # bs) rest
             (if new \<noteq> prev then ((fst s)(bit_name \<mapsto> new), True) else s))"
  by (simp add: raw_bit_of_aligned Let_def)

theorem vector_bit_alignment_witness:
  "raw_bit_of ''x1'' 1 4 = Inr ''x'' \<and> raw_bit_of ''10'' 1 4 = Inr ''0''
   \<and> raw_bit_of ''10'' 2 4 = Inr ''1'' \<and> raw_bit_of ''10'' 4 4 = Inr ''x''
   \<and> raw_bit_of ''Z01'' 0 2 = Inr ''Z''"
  using vector_bit_alignment [of "CHR ''x''" "''1''" 1 4]
    vector_bit_alignment [of "CHR ''1''" "''0''" 1 4]
    vector_bit_alignment [of "CHR ''1''" "''0''" 2 4]
    vector_bit_alignment [of "CHR ''1''" "''0''" 4 4]
    vector_bit_alignment [of "CHR ''Z''" "''01''" 0 2]
  by (simp add: right_justified_bit_def)

lemma classify_vector_nonempty: "classify l = VectorChange bits sid \<Longrightarrow> bits \<noteq> []"
  by (auto simp: classify_def re_vector_def Let_def
        split: list.splits option.splits if_splits prod.splits)

subsection \<open>The default selection\<close>

lemma vcd_rows_Inr:
  assumes "vcd_rows lines wanted t_min t_max ignore_missing uniform_step = Some (Inr (sigs, rows))"
  shows "\<exists>ts sel. tick_seconds lines = Inr ts
           \<and> select_signals (parse_header lines empty_header) wanted ignore_missing = Inr sel
           \<and> fst sel = sigs
           \<and> emit_mode (mk_config ts (parse_header lines empty_header) sel t_min t_max)
                 uniform_step (init_vals sigs) lines = Some (Inr rows)"
proof -
  let ?h = "parse_header lines empty_header"
  from assms obtain ts where ts: "tick_seconds lines = Inr ts"
    by (cases "tick_seconds lines") (simp_all add: vcd_rows_def)
  show ?thesis
  proof (cases "select_signals ?h wanted ignore_missing")
    case (Inl e)
    with assms ts show ?thesis by (simp add: vcd_rows_def Let_def split: if_splits)
  next
    case (Inr sel)
    show ?thesis
    proof (cases "emit_mode (mk_config ts ?h sel t_min t_max) uniform_step
                    (init_vals (fst sel)) lines")
      case None
      with assms ts Inr show ?thesis by (simp add: vcd_rows_def Let_def split: if_splits)
    next
      case (Some r)
      with assms ts Inr show ?thesis
        by (cases r) (simp_all add: vcd_rows_def Let_def split: if_splits)
    qed
  qed
qed

lemma setdefault_keys: "fst ` set (setdefault k v d) = insert k (fst ` set d)"
  by (auto simp: setdefault_def map_of_eq_None_iff image_iff)

lemma setdefault_distinct: "distinct (map fst d) \<Longrightarrow> distinct (map fst (setdefault k v d))"
  by (auto simp: setdefault_def map_of_eq_None_iff)

lemma parse_header_step:
  "parse_header (line # rest) h =
     (if contains ''$enddefinitions'' line then h
      else parse_header rest
        (case parse_var_line line of
           None \<Rightarrow> h
         | Some (width, sid, ref, rng) \<Rightarrow>
             if width = 1 then h\<lparr>scalar_name2id := setdefault ref sid (scalar_name2id h)\<rparr>
             else h\<lparr>bus_defs := dict_set sid
                    (ref, ref,
                     fst (case rng of None \<Rightarrow> (width - 1, 0)
                          | Some r \<Rightarrow> (case re_range r of Some (a, b) \<Rightarrow> (int a, int b)
                                       | None \<Rightarrow> (width - 1, 0))),
                     snd (case rng of None \<Rightarrow> (width - 1, 0)
                          | Some r \<Rightarrow> (case re_range r of Some (a, b) \<Rightarrow> (int a, int b)
                                       | None \<Rightarrow> (width - 1, 0))),
                     width) (bus_defs h)\<rparr>))"
  by (simp add: case_prod_beta split: option.split)

lemma parse_header_names:
  "fst ` set (scalar_name2id (parse_header lines h))
     = fst ` set (scalar_name2id h) \<union> set (declared_scalar_names lines)"
proof (induction lines arbitrary: h)
  case Nil
  then show ?case by (simp add: declared_scalar_names_def header_lines_def map_filter_simps)
next
  case (Cons line rest)
  show ?case
    unfolding parse_header_step
    by (auto simp: Cons.IH declared_scalar_names_def header_lines_def map_filter_simps
          setdefault_keys split: option.splits)
qed

lemma parse_header_distinct:
  "distinct (map fst (scalar_name2id h)) \<Longrightarrow>
     distinct (map fst (scalar_name2id (parse_header lines h)))"
proof (induction lines arbitrary: h)
  case Nil
  then show ?case by simp
next
  case (Cons line rest)
  show ?case
    unfolding parse_header_step
    by (auto intro!: Cons.IH simp: Cons.prems setdefault_distinct split: option.splits)
qed

text \<open>
  C8, as the specification states it, fails: for two scalars declared in the order
  \<open>b\<close>, \<open>a\<close> the columns are \<open>a\<close>, \<open>b\<close>, not the declared order.
\<close>

theorem default_selection_counterexample:
  "declared_scalar_names two_scalars_example = [''b'', ''a'']
   \<and> vcd_rows two_scalars_example None None None False None = Some (Inr ([''a'', ''b''], []))
   \<and> vcd_rows two_scalars_example None None None False None
       \<noteq> Some (Inr (declared_scalar_names two_scalars_example, []))"
  by code_simp

text \<open>
  C8, amended. When neither a viewer-configuration file nor an explicit signal list is
  given, the output column list is every single-bit signal's declared name, each once,
  in ascending lexicographic order.
\<close>

theorem default_selection_sorted:
  assumes "vcd_rows lines None t_min t_max ignore_missing uniform_step = Some (Inr (sigs, rows))"
  shows "sigs = sorted_list_of_set (set (declared_scalar_names lines))"
proof -
  let ?h = "parse_header lines empty_header"
  from vcd_rows_Inr [OF assms] obtain ts sel where
    "select_signals ?h None ignore_missing = Inr sel" "fst sel = sigs"
    by blast
  then have s: "sigs = sort (map fst (scalar_name2id ?h))"
    by (auto simp: select_signals_def Let_def)
  have d: "distinct (map fst (scalar_name2id ?h))"
    by (rule parse_header_distinct) (simp add: empty_header_def)
  have "set (map fst (scalar_name2id ?h)) = set (declared_scalar_names lines)"
    using parse_header_names [of lines empty_header] by (simp add: empty_header_def)
  with d s show ?thesis
    by (metis distinct_remdups_id sorted_list_of_set_sort_remdups)
qed

theorem default_selection_sorted_witness:
  "vcd_rows two_scalars_example None None None False None = Some (Inr ([''a'', ''b''], []))
   \<and> [''a'', ''b''] = sorted_list_of_set (set (declared_scalar_names two_scalars_example))"
proof -
  have r: "vcd_rows two_scalars_example None None None False None
             = Some (Inr ([''a'', ''b''], []))"
    by code_simp
  from default_selection_sorted [OF r] r show ?thesis by simp
qed

subsection \<open>The empty selection\<close>

lemma select_signals_empty:
  "select_signals h (Some []) ignore_missing = select_signals h None ignore_missing"
  by (simp add: select_signals_def)

lemma vcd_rows_empty:
  "vcd_rows lines (Some []) t_min t_max ignore_missing uniform_step
     = vcd_rows lines None t_min t_max ignore_missing uniform_step"
  unfolding vcd_rows_def select_signals_empty by (rule refl)

text \<open>
  C10. A call with the empty list as \<open>wanted_signals\<close> writes what the call without
  \<open>wanted_signals\<close> writes: the empty selection is no error, it is the default
  selection of all scalars.
\<close>

theorem empty_selection_is_default:
  "vcd_to_csv lines (Some []) t_min t_max ignore_missing uniform_step
     = vcd_to_csv lines None t_min t_max ignore_missing uniform_step"
  by (simp add: vcd_to_csv_def vcd_rows_empty)

theorem empty_selection_is_default_witness:
  "vcd_to_csv clk_data_example (Some []) None None False None
     = Some (Inr [''Time[s],clk'' @ [CHR 0x0A], ''0.000000000005,0'' @ [CHR 0x0A]])"
  using empty_selection_is_default [of clk_data_example None None False None] clk_data_csv
  by simp

subsection \<open>Resolved columns\<close>

lemma resolved_upd:
  "resolved vals sigs \<Longrightarrow> resolved (vals(n \<mapsto> sanitize_bit v p)) sigs"
  using sanitize_bit_binary[of v p] by (auto simp: resolved_def list_all_iff)

lemma scalar_update_resolved:
  "scalar_update val names s = Inr s' \<Longrightarrow> resolved (fst s) sigs \<Longrightarrow> resolved (fst s') sigs"
proof (induction names arbitrary: s)
  case Nil
  then show ?case by simp
next
  case (Cons name names)
  show ?case
  proof (cases "fst s name")
    case None
    with Cons.prems show ?thesis by simp
  next
    case (Some prev)
    show ?thesis
    proof (cases "sanitize_bit val prev = prev")
      case True
      with Some Cons.prems Cons.IH[of s] show ?thesis by (simp add: Let_def)
    next
      case False
      with Some Cons.prems(1)
      have step: "scalar_update val names ((fst s)(name \<mapsto> sanitize_bit val prev), True) = Inr s'"
        by (simp add: Let_def)
      have "resolved (fst ((fst s)(name \<mapsto> sanitize_bit val prev), True)) sigs"
        using resolved_upd [OF Cons.prems(2)] by simp
      from Cons.IH [OF step this] show ?thesis .
    qed
  qed
qed

lemma vector_update_resolved:
  "vector_update bits entries s = Inr s' \<Longrightarrow> resolved (fst s) sigs \<Longrightarrow> resolved (fst s') sigs"
proof (induction entries arbitrary: s)
  case Nil
  then show ?case by simp
next
  case (Cons e entries)
  obtain bit_name offset width where e: "e = (bit_name, offset, width)" by (cases e) auto
  show ?case
  proof (cases "raw_bit_of bits offset width")
    case (Inl err)
    with e Cons.prems show ?thesis by simp
  next
    case (Inr raw_bit)
    let ?prev = "case fst s bit_name of None \<Rightarrow> ''1'' | Some v \<Rightarrow> v"
    show ?thesis
    proof (cases "sanitize_bit raw_bit ?prev = ?prev")
      case True
      with e Inr Cons.prems Cons.IH[of s] show ?thesis by (simp add: Let_def)
    next
      case False
      with e Inr Cons.prems(1)
      have step: "vector_update bits entries
                    ((fst s)(bit_name \<mapsto> sanitize_bit raw_bit ?prev), True) = Inr s'"
        by (simp add: Let_def)
      have "resolved (fst ((fst s)(bit_name \<mapsto> sanitize_bit raw_bit ?prev), True)) sigs"
        using resolved_upd [OF Cons.prems(2)] by simp
      from Cons.IH [OF step this] show ?thesis .
    qed
  qed
qed

lemma init_vals_resolved: "resolved (init_vals sigs) sigs"
proof -
  have "n \<in> set sigs \<Longrightarrow> init_vals sigs n = Some ''1''" for n
    unfolding init_vals_def by (induction sigs) auto
  then show ?thesis by (simp add: resolved_def list_all_iff)
qed

lemma flush_cur_vals:
  "flush_if_needed cfg st = Inr (b, st') \<Longrightarrow> cur_vals st' = cur_vals st"
  by (auto simp: flush_if_needed_def Let_def split: option.splits if_splits sum.splits)

lemma event_apply_resolved:
  assumes "event_apply cfg st l = Inr (b, st')" and "resolved (cur_vals st) sigs"
  shows "resolved (cur_vals st') sigs"
proof (cases l)
  case (TimeMarker t)
  with assms show ?thesis
    by (auto simp: event_apply_def dest!: flush_cur_vals split: sum.splits if_splits)
next
  case (ScalarChange val sid)
  with assms show ?thesis
    by (auto simp: event_apply_def dest: scalar_update_resolved split: option.splits sum.splits)
next
  case (VectorChange bits sid)
  with assms show ?thesis
    by (auto simp: event_apply_def dest: vector_update_resolved split: option.splits sum.splits)
qed (use assms in \<open>auto simp: event_apply_def\<close>)

lemma event_line_resolved:
  assumes "event_line cfg st l = Inr (b, st')" and "resolved (cur_vals st) sigs"
  shows "resolved (cur_vals st') sigs"
  using assms event_apply_resolved[of cfg st "classify (rstrip l)" b st' sigs]
  by (auto simp: event_line_def Let_def split: if_splits)

lemma event_loop_resolved:
  "event_loop cfg st lines = Inr (b, st') \<Longrightarrow> resolved (cur_vals st) sigs
     \<Longrightarrow> resolved (cur_vals st') sigs"
proof (induction lines arbitrary: st)
  case Nil
  then show ?case by simp
next
  case (Cons l lines)
  show ?case
  proof (cases "event_line cfg st l")
    case (Inl e)
    with Cons.prems show ?thesis by simp
  next
    case (Inr r)
    obtain stop st1 where r: "r = (stop, st1)" by (cases r) auto
    from Inr r Cons.prems(2) have res1: "resolved (cur_vals st1) sigs"
      by (auto dest: event_line_resolved)
    show ?thesis
    proof (cases stop)
      case True
      with Inr r Cons.prems res1 show ?thesis by simp
    next
      case False
      with Inr r Cons.prems(1) have "event_loop cfg st1 lines = Inr (b, st')" by simp
      with Cons.IH res1 show ?thesis by blast
    qed
  qed
qed

lemma emit_uniform_between_cur_vals:
  "emit_uniform_between cfg step st t_from t_to = Some (Inr st') \<Longrightarrow> cur_vals st' = cur_vals st"
  by (auto simp: emit_uniform_between_def Let_def split: if_splits option.splits sum.splits)

lemma uniform_apply_resolved:
  assumes "uniform_apply cfg step st l = Some (Inr st')" and "resolved (cur_vals st) sigs"
  shows "resolved (cur_vals st') sigs"
proof (cases l)
  case (TimeMarker t)
  with assms show ?thesis
    by (auto simp: uniform_apply_def Let_def dest!: emit_uniform_between_cur_vals
          split: option.splits sum.splits)
next
  case (ScalarChange val sid)
  with assms show ?thesis
    by (auto simp: uniform_apply_def dest: scalar_update_resolved split: option.splits sum.splits)
next
  case (VectorChange bits sid)
  with assms show ?thesis
    by (auto simp: uniform_apply_def dest: vector_update_resolved split: option.splits sum.splits)
qed (use assms in \<open>auto simp: uniform_apply_def\<close>)

lemma uniform_line_resolved:
  assumes "uniform_line cfg step st l = Some (Inr st')" and "resolved (cur_vals st) sigs"
  shows "resolved (cur_vals st') sigs"
  using assms uniform_apply_resolved[of cfg step st "classify (rstrip l)" st' sigs]
  by (auto simp: uniform_line_def Let_def split: if_splits)

lemma uniform_loop_resolved:
  "uniform_loop cfg step st lines = Some (Inr st') \<Longrightarrow> resolved (cur_vals st) sigs
     \<Longrightarrow> resolved (cur_vals st') sigs"
proof (induction lines arbitrary: st)
  case Nil
  then show ?case by simp
next
  case (Cons l lines)
  show ?case
  proof (cases "uniform_line cfg step st l")
    case None
    with Cons.prems show ?thesis by simp
  next
    case (Some r)
    show ?thesis
    proof (cases r)
      case (Inl e)
      with Some Cons.prems show ?thesis by simp
    next
      case (Inr st1)
      with Some Cons.prems(2) have "resolved (cur_vals st1) sigs"
        by (auto dest: uniform_line_resolved)
      moreover from Some Inr Cons.prems(1) have "uniform_loop cfg step st1 lines = Some (Inr st')"
        by simp
      ultimately show ?thesis using Cons.IH by blast
    qed
  qed
qed

text \<open>
  C9. In both emission modes, after the initialization and after any sequence of lines
  of the input, every output column holds \<open>0\<close> or \<open>1\<close> in the value map: never an
  unresolved or high-impedance marker.
\<close>

theorem columns_resolved:
  "(event_loop cfg (event_init (init_vals (signals cfg))) lines = Inr (stop, st)
      \<longrightarrow> resolved (cur_vals st) (signals cfg))
   \<and> (uniform_loop cfg step (uniform_init (init_vals (signals cfg))) lines = Some (Inr ust)
      \<longrightarrow> resolved (cur_vals ust) (signals cfg))"
  using event_loop_resolved[of cfg "event_init (init_vals (signals cfg))" lines stop st "signals cfg"]
    uniform_loop_resolved[of cfg step "uniform_init (init_vals (signals cfg))" lines ust "signals cfg"]
  by (simp add: event_init_def uniform_init_def init_vals_resolved)


theorem columns_resolved_witness:
  "\<not> isl (event_loop (clk_data_config None None)
            (event_init (init_vals (signals (clk_data_config None None)))) clk_toggle_example)
   \<and> resolved
        (cur_vals (snd (projr (event_loop (clk_data_config None None)
            (event_init (init_vals (signals (clk_data_config None None)))) clk_toggle_example))))
        (signals (clk_data_config None None))
   \<and> (case uniform_loop (clk_data_config None None) picosecond
             (uniform_init (init_vals (signals (clk_data_config None None)))) clk_toggle_example of
         Some (Inr st) \<Rightarrow> resolved (cur_vals st) (signals (clk_data_config None None))
       | _ \<Rightarrow> False)"
proof -
  let ?c = "clk_data_config None None"
  let ?e = "event_loop ?c (event_init (init_vals (signals ?c))) clk_toggle_example"
  let ?u = "uniform_loop ?c picosecond (uniform_init (init_vals (signals ?c))) clk_toggle_example"
  have e: "\<not> isl ?e" by code_simp
  then obtain stop st where est: "?e = Inr (stop, st)"
    by (cases ?e) auto
  have u: "(case ?u of Some (Inr st) \<Rightarrow> True | _ \<Rightarrow> False)" by code_simp
  then obtain ust where ust: "?u = Some (Inr ust)"
    by (cases ?u) (auto split: sum.splits)
  from columns_resolved [of ?c clk_toggle_example stop st picosecond ust] est ust e
  show ?thesis by simp
qed

subsection \<open>The upper bound in event mode\<close>

lemma flush_bounded:
  assumes "flush_if_needed cfg st = Inr (b, st')" and "tmax cfg = Some hi"
    and "list_all (\<lambda>r. fst r \<le> hi) (out st)"
  shows "list_all (\<lambda>r. fst r \<le> hi) (out st')"
  using assms
  by (auto simp: flush_if_needed_def Let_def split: option.splits if_splits sum.splits)

lemma event_apply_out:
  assumes "event_apply cfg st l = Inr (b, st')" and "\<And>t. l \<noteq> TimeMarker t"
  shows "out st' = out st"
  using assms
  by (cases l) (auto simp: event_apply_def split: option.splits sum.splits)

lemma event_apply_bounded:
  assumes "event_apply cfg st l = Inr (b, st')" and "tmax cfg = Some hi"
    and "list_all (\<lambda>r. fst r \<le> hi) (out st)"
  shows "list_all (\<lambda>r. fst r \<le> hi) (out st')"
proof (cases l)
  case (TimeMarker t)
  with assms(1) obtain b1 st1 where f: "flush_if_needed cfg st = Inr (b1, st1)"
    by (cases "flush_if_needed cfg st") (auto simp: event_apply_def)
  from flush_bounded [OF f assms(2,3)] f TimeMarker assms(1) show ?thesis
    by (auto simp: event_apply_def split: if_splits)
qed (use assms event_apply_out[of cfg st l b st'] in auto)

lemma event_line_bounded:
  assumes "event_line cfg st l = Inr (b, st')" and "tmax cfg = Some hi"
    and "list_all (\<lambda>r. fst r \<le> hi) (out st)"
  shows "list_all (\<lambda>r. fst r \<le> hi) (out st')"
  using assms event_apply_bounded[of cfg st "classify (rstrip l)" b st' hi]
  by (auto simp: event_line_def Let_def split: if_splits)

lemma event_loop_bounded:
  "event_loop cfg st lines = Inr (b, st') \<Longrightarrow> tmax cfg = Some hi
     \<Longrightarrow> list_all (\<lambda>r. fst r \<le> hi) (out st) \<Longrightarrow> list_all (\<lambda>r. fst r \<le> hi) (out st')"
proof (induction lines arbitrary: st)
  case Nil
  then show ?case by simp
next
  case (Cons l lines)
  show ?case
  proof (cases "event_line cfg st l")
    case (Inl e)
    with Cons.prems show ?thesis by simp
  next
    case (Inr r)
    obtain stop st1 where r: "r = (stop, st1)" by (cases r) auto
    from Inr r Cons.prems(2,3) have b1: "list_all (\<lambda>r. fst r \<le> hi) (out st1)"
      by (auto dest: event_line_bounded)
    show ?thesis
    proof (cases stop)
      case True
      with Inr r Cons.prems b1 show ?thesis by simp
    next
      case False
      with Inr r Cons.prems(1) have "event_loop cfg st1 lines = Inr (b, st')" by simp
      from Cons.IH [OF this Cons.prems(2) b1] show ?thesis .
    qed
  qed
qed

lemma event_mode_bounded:
  assumes "event_mode cfg vals lines = Inr rows" and "tmax cfg = Some hi"
  shows "list_all (\<lambda>r. fst r \<le> hi) rows"
proof -
  from assms(1) obtain b st where l: "event_loop cfg (event_init vals) lines = Inr (b, st)"
    by (cases "event_loop cfg (event_init vals) lines") (auto simp: event_mode_def)
  have "list_all (\<lambda>r. fst r \<le> hi) (out (event_init vals))" by (simp add: event_init_def)
  from event_loop_bounded [OF l assms(2) this] have b1: "list_all (\<lambda>r. fst r \<le> hi) (out st)" .
  from assms(1) l obtain st' where f: "event_finish cfg (b, st) = Inr st'" and r: "rows = out st'"
    by (cases "event_finish cfg (b, st)") (auto simp: event_mode_def)
  from f b1 assms(2) have "list_all (\<lambda>r. fst r \<le> hi) (out st')"
    by (auto simp: event_finish_def dest: flush_bounded split: if_splits sum.splits)
  with r show ?thesis by simp
qed

lemma mk_config_fields:
  "tmax (mk_config ts h sel t_min t_max) = t_max"
  "tmin (mk_config ts h sel t_min t_max) = t_min"
  "signals (mk_config ts h sel t_min t_max) = fst sel"
  "ts_sec (mk_config ts h sel t_min t_max) = ts"
  by (cases sel; simp add: mk_config_def)+

lemma vcd_rows_bounded:
  assumes "vcd_rows lines wanted t_min (Some hi) ignore_missing None = Some (Inr (sigs, rows))"
  shows "list_all (\<lambda>r. fst r \<le> hi) rows"
proof -
  from vcd_rows_Inr [OF assms] obtain ts sel where
    "emit_mode (mk_config ts (parse_header lines empty_header) sel t_min (Some hi)) None
       (init_vals sigs) lines = Some (Inr rows)"
    by blast
  then have "event_mode (mk_config ts (parse_header lines empty_header) sel t_min (Some hi))
       (init_vals sigs) lines = Inr rows"
    by (simp add: emit_mode_def)
  then show ?thesis by (rule event_mode_bounded) (simp add: mk_config_fields)
qed

lemma flush_stops:
  assumes "cur_time_ticks st = Some t" and "changed_at_time st" and "tmax cfg = Some hi"
    and "int_mul_float (int t) (ts_sec cfg) = Inr t_sec" and "hi < t_sec"
    and "case tmin cfg of None \<Rightarrow> True | Some lo \<Rightarrow> lo \<le> t_sec"
  shows "flush_if_needed cfg st = Inr (True, st)"
  using assms by (auto simp: flush_if_needed_def Let_def split: option.splits)

lemma marker_stops:
  assumes "header_done st" and "classify (rstrip l) = TimeMarker t'"
    and "cur_time_ticks st = Some t" and "changed_at_time st" and "tmax cfg = Some hi"
    and "int_mul_float (int t) (ts_sec cfg) = Inr t_sec" and "hi < t_sec"
    and "case tmin cfg of None \<Rightarrow> True | Some lo \<Rightarrow> lo \<le> t_sec"
  shows "event_loop cfg st (l # rest) = Inr (True, st) \<and> event_finish cfg (True, st) = Inr st"
  using assms flush_stops[of st t cfg hi t_sec]
  by (simp add: event_line_def event_apply_def event_finish_def)

text \<open>
  C5. In event mode with the upper bound \<open>hi\<close>, every row written has a time of at most
  \<open>hi\<close>. When a time marker finds a change pending at a time beyond \<open>hi\<close> (and not
  before the lower bound), the loop stops there: no row is written, the state is left
  as it is, the lines after the marker are not read and the flush after the loop is
  skipped. The time of the pending change is the float \<open>t_sec\<close> that the flush computes
  from the tick and the time scale.
\<close>

theorem rows_bounded_above:
  "(vcd_rows lines wanted t_min (Some hi) ignore_missing None = Some (Inr (sigs, rows))
      \<longrightarrow> list_all (\<lambda>r. fst r \<le> hi) rows)
   \<and> (header_done st \<and> classify (rstrip l) = TimeMarker t' \<and> cur_time_ticks st = Some t
       \<and> changed_at_time st \<and> tmax cfg = Some hi
       \<and> int_mul_float (int t) (ts_sec cfg) = Inr t_sec \<and> hi < t_sec
       \<and> (case tmin cfg of None \<Rightarrow> True | Some lo \<Rightarrow> lo \<le> t_sec)
      \<longrightarrow> event_loop cfg st (l # rest) = Inr (True, st)
          \<and> event_finish cfg (True, st) = Inr st)"
  using vcd_rows_bounded [of lines wanted t_min hi ignore_missing sigs rows]
    marker_stops [of st l t' t cfg hi t_sec rest]
  by blast

theorem rows_bounded_above_witness:
  "vcd_rows clk_toggle_example (Some [''clk'', ''data[0]'']) None (Some (binary64 (6 / 10 ^ 12)))
       False None
     = Some (Inr ([''clk'', ''data[0]''], [(0, [''1'', ''0'']), (ps_tick 5, [''0'', ''0''])]))
   \<and> list_all (\<lambda>r. fst r \<le> binary64 (6 / 10 ^ 12))
        [(0 :: rat, [''1'', ''0'']), (ps_tick 5, [''0'', ''0''])]
   \<and> event_loop (clk_data_config None (Some (binary64 (6 / 10 ^ 12)))) (pending_state 7)
         (''#9'' # [''0!''])
       = Inr (True, pending_state 7)
   \<and> event_finish (clk_data_config None (Some (binary64 (6 / 10 ^ 12)))) (True, pending_state 7)
       = Inr (pending_state 7)"
proof -
  let ?hi = "binary64 (6 / 10 ^ 12)"
  have r: "vcd_rows clk_toggle_example (Some [''clk'', ''data[0]'']) None (Some ?hi) False None
           = Some (Inr ([''clk'', ''data[0]''], [(0, [''1'', ''0'']), (ps_tick 5, [''0'', ''0''])]))"
    by code_simp
  have h: "header_done (pending_state 7) \<and> classify (rstrip ''#9'') = TimeMarker 9
      \<and> cur_time_ticks (pending_state 7) = Some 7 \<and> changed_at_time (pending_state 7)
      \<and> tmax (clk_data_config None (Some ?hi)) = Some ?hi
      \<and> int_mul_float (int 7) (ts_sec (clk_data_config None (Some ?hi))) = Inr (ps_tick 7)
      \<and> ?hi < ps_tick 7
      \<and> (case tmin (clk_data_config None (Some ?hi)) of
            None \<Rightarrow> True
          | Some lo \<Rightarrow> lo \<le> ps_tick 7)"
    by code_simp
  note w = rows_bounded_above [where lines = clk_toggle_example
      and wanted = "Some [''clk'', ''data[0]'']" and t_min = None and hi = ?hi
      and ignore_missing = False and sigs = "[''clk'', ''data[0]'']"
      and rows = "[(0, [''1'', ''0'']), (ps_tick 5, [''0'', ''0''])]"
      and st = "pending_state 7" and l = "''#9''" and t' = 9 and t = 7 and t_sec = "ps_tick 7"
      and cfg = "clk_data_config None (Some ?hi)" and rest = "[''0!'']"]
  note c1 = w [THEN conjunct1, THEN mp, OF r]
  note c2 = w [THEN conjunct2, THEN mp, OF h]
  from r c1 c2 show ?thesis
    by (intro conjI) (rule r, rule c1, rule c2 [THEN conjunct1], rule c2 [THEN conjunct2])
qed

subsection \<open>The lower bound in event mode\<close>

lemma flush_sim:
  assumes "flush_if_needed cfg st = Inr (b, st')" and "tmin cfg = None"
    and "case tmax cfg of None \<Rightarrow> True | Some hi \<Rightarrow> lo \<le> hi"
  shows "flush_if_needed (cfg\<lparr>tmin := Some lo\<rparr>) (drop_early lo st) = Inr (b, drop_early lo st')"
  using assms
  by (auto simp: flush_if_needed_def drop_early_def Let_def split: option.splits if_splits sum.splits)

lemma event_apply_sim:
  assumes "event_apply cfg st l = Inr (b, st')" and "tmin cfg = None"
    and "case tmax cfg of None \<Rightarrow> True | Some hi \<Rightarrow> lo \<le> hi"
  shows "event_apply (cfg\<lparr>tmin := Some lo\<rparr>) (drop_early lo st) l = Inr (b, drop_early lo st')"
proof (cases l)
  case (TimeMarker t)
  with assms(1) obtain b1 st1 where f: "flush_if_needed cfg st = Inr (b1, st1)"
    by (cases "flush_if_needed cfg st") (auto simp: event_apply_def)
  from flush_sim [OF f assms(2,3)] f TimeMarker assms(1) show ?thesis
    by (auto simp: event_apply_def drop_early_def split: if_splits)
next
  case (ScalarChange val sid)
  with assms show ?thesis
    by (auto simp: event_apply_def drop_early_def split: option.splits sum.splits)
next
  case (VectorChange bits sid)
  with assms show ?thesis
    by (auto simp: event_apply_def drop_early_def split: option.splits sum.splits)
qed (use assms in \<open>auto simp: event_apply_def\<close>)

lemma event_line_sim:
  assumes "event_line cfg st l = Inr (b, st')" and "tmin cfg = None"
    and "case tmax cfg of None \<Rightarrow> True | Some hi \<Rightarrow> lo \<le> hi"
  shows "event_line (cfg\<lparr>tmin := Some lo\<rparr>) (drop_early lo st) l = Inr (b, drop_early lo st')"
proof (cases "header_done st")
  case True
  with assms(1) have "event_apply cfg st (classify (rstrip l)) = Inr (b, st')"
    by (simp add: event_line_def)
  from event_apply_sim [OF this assms(2,3)] True show ?thesis
    by (simp add: event_line_def drop_early_def)
next
  case False
  with assms(1) show ?thesis
    by (auto simp: event_line_def drop_early_def Let_def)
qed

lemma event_loop_sim:
  "event_loop cfg st lines = Inr (b, st') \<Longrightarrow> tmin cfg = None
     \<Longrightarrow> (case tmax cfg of None \<Rightarrow> True | Some hi \<Rightarrow> lo \<le> hi)
     \<Longrightarrow> event_loop (cfg\<lparr>tmin := Some lo\<rparr>) (drop_early lo st) lines = Inr (b, drop_early lo st')"
proof (induction lines arbitrary: st)
  case Nil
  then show ?case by simp
next
  case (Cons l lines)
  show ?case
  proof (cases "event_line cfg st l")
    case (Inl e)
    with Cons.prems show ?thesis by simp
  next
    case (Inr r)
    obtain stop st1 where r: "r = (stop, st1)" by (cases r) auto
    from Inr r have e: "event_line cfg st l = Inr (stop, st1)" by simp
    note s1 = event_line_sim [OF e Cons.prems(2,3)]
    show ?thesis
    proof (cases stop)
      case True
      with e Cons.prems(1) s1 show ?thesis by simp
    next
      case False
      with e Cons.prems(1) have "event_loop cfg st1 lines = Inr (b, st')" by simp
      from Cons.IH [OF this Cons.prems(2,3)] s1 False show ?thesis by simp
    qed
  qed
qed

lemma event_mode_sim:
  assumes "event_mode cfg vals lines = Inr rows" and "tmin cfg = None"
    and "case tmax cfg of None \<Rightarrow> True | Some hi \<Rightarrow> lo \<le> hi"
  shows "event_mode (cfg\<lparr>tmin := Some lo\<rparr>) vals lines = Inr (filter (\<lambda>r. lo \<le> fst r) rows)"
proof -
  from assms(1) obtain b st where l: "event_loop cfg (event_init vals) lines = Inr (b, st)"
    by (cases "event_loop cfg (event_init vals) lines") (auto simp: event_mode_def)
  have i: "drop_early lo (event_init vals) = event_init vals"
    by (simp add: drop_early_def event_init_def)
  from event_loop_sim [OF l assms(2,3)] i
  have l': "event_loop (cfg\<lparr>tmin := Some lo\<rparr>) (event_init vals) lines = Inr (b, drop_early lo st)"
    by simp
  from assms(1) l obtain st' where f: "event_finish cfg (b, st) = Inr st'" and r: "rows = out st'"
    by (cases "event_finish cfg (b, st)") (auto simp: event_mode_def)
  have "event_finish (cfg\<lparr>tmin := Some lo\<rparr>) (b, drop_early lo st) = Inr (drop_early lo st')"
  proof (cases b)
    case True
    with f show ?thesis by (simp add: event_finish_def)
  next
    case False
    with f obtain b1 where "flush_if_needed cfg st = Inr (b1, st')"
      by (cases "flush_if_needed cfg st") (auto simp: event_finish_def)
    from flush_sim [OF this assms(2,3)] False show ?thesis by (simp add: event_finish_def)
  qed
  with l' r show ?thesis by (simp add: event_mode_def drop_early_def)
qed

lemma mk_config_tmin:
  "mk_config ts h sel (Some lo) t_max = (mk_config ts h sel None t_max)\<lparr>tmin := Some lo\<rparr>"
  by (cases sel) (simp add: mk_config_def)

lemma vcd_rows_lower_bound:
  assumes "vcd_rows lines wanted None t_max ignore_missing None = Some (Inr (sigs, rows))"
    and "case t_max of None \<Rightarrow> True | Some hi \<Rightarrow> lo \<le> hi"
  shows "vcd_rows lines wanted (Some lo) t_max ignore_missing None
           = Some (Inr (sigs, filter (\<lambda>r. lo \<le> fst r) rows))"
proof -
  let ?h = "parse_header lines empty_header"
  from vcd_rows_Inr [OF assms(1)] obtain ts sel where
    ts: "tick_seconds lines = Inr ts"
    and sel: "select_signals ?h wanted ignore_missing = Inr sel" "fst sel = sigs"
    and "emit_mode (mk_config ts ?h sel None t_max) None (init_vals sigs) lines = Some (Inr rows)"
    by blast
  then have e: "event_mode (mk_config ts ?h sel None t_max) (init_vals sigs) lines = Inr rows"
    by (simp add: emit_mode_def)
  from assms(1) ts have ne: "\<not> (scalar_name2id ?h = [] \<and> bus_defs ?h = [])"
    by (auto simp: vcd_rows_def Let_def)
  from event_mode_sim [OF e, of lo] assms(2)
  have "event_mode (mk_config ts ?h sel (Some lo) t_max) (init_vals sigs) lines
          = Inr (filter (\<lambda>r. lo \<le> fst r) rows)"
    by (simp add: mk_config_fields mk_config_tmin)
  with ts sel ne show ?thesis
    by (simp add: vcd_rows_def Let_def emit_mode_def)
qed

lemma flush_before_lower_bound:
  assumes "cur_time_ticks st = Some t" and "changed_at_time st" and "tmin cfg = Some lo"
    and "int_mul_float (int t) (ts_sec cfg) = Inr t_sec" and "t_sec < lo"
  shows "flush_if_needed cfg st = Inr (False, st\<lparr>changed_at_time := False\<rparr>)"
  using assms by (simp add: flush_if_needed_def Let_def)


text \<open>
  C6. In event mode, a flush at a time before the lower bound \<open>lo\<close> (the time is the
  float \<open>t_sec\<close> that the flush computes from the tick and the time scale) writes no row
  and only clears the change flag: the value map stays as the updates left it. The run
  with the lower bound \<open>lo\<close> (and an upper bound, if any, that is not below it) writes
  exactly the rows of the run without a lower bound whose time is at least \<open>lo\<close>, so
  every row at or after \<open>lo\<close> shows all changes made before \<open>lo\<close>.
\<close>

theorem rows_bounded_below:
  "(cur_time_ticks st = Some t \<and> changed_at_time st \<and> tmin cfg = Some lo
       \<and> int_mul_float (int t) (ts_sec cfg) = Inr t_sec \<and> t_sec < lo
      \<longrightarrow> flush_if_needed cfg st = Inr (False, st\<lparr>changed_at_time := False\<rparr>))
   \<and> (vcd_rows lines wanted None t_max ignore_missing None = Some (Inr (sigs, rows))
       \<and> (case t_max of None \<Rightarrow> True | Some hi \<Rightarrow> lo \<le> hi)
      \<longrightarrow> vcd_rows lines wanted (Some lo) t_max ignore_missing None
            = Some (Inr (sigs, filter (\<lambda>r. lo \<le> fst r) rows)))"
  using flush_before_lower_bound [of st t cfg lo t_sec]
    vcd_rows_lower_bound [of lines wanted t_max ignore_missing sigs rows lo]
  by blast

theorem rows_bounded_below_witness:
  "flush_if_needed (clk_data_config (Some (binary64 (8 / 10 ^ 12))) None) (pending_state 7)
     = Inr (False, (pending_state 7)\<lparr>changed_at_time := False\<rparr>)
   \<and> vcd_rows clk_toggle_example (Some [''clk'', ''data[0]'']) None None False None
     = Some (Inr ([''clk'', ''data[0]''],
          [(0, [''1'', ''0'']), (ps_tick 5, [''0'', ''0'']), (ps_tick 7, [''1'', ''0'']),
           (ps_tick 9, [''0'', ''0''])]))
   \<and> vcd_rows clk_toggle_example (Some [''clk'', ''data[0]'']) (Some (binary64 (6 / 10 ^ 12))) None
         False None
     = Some (Inr ([''clk'', ''data[0]''],
          [(ps_tick 7, [''1'', ''0'']), (ps_tick 9, [''0'', ''0''])]))"
proof -
  let ?lo = "binary64 (6 / 10 ^ 12)" and ?lo' = "binary64 (8 / 10 ^ 12)"
  let ?rows = "[(0, [''1'', ''0'']), (ps_tick 5, [''0'', ''0'']), (ps_tick 7, [''1'', ''0'']),
           (ps_tick 9, [''0'', ''0''])]"
  have r: "vcd_rows clk_toggle_example (Some [''clk'', ''data[0]'']) None None False None
     = Some (Inr ([''clk'', ''data[0]''], ?rows))
     \<and> (case None :: rat option of None \<Rightarrow> True | Some hi \<Rightarrow> ?lo \<le> hi)"
    by code_simp
  have h: "cur_time_ticks (pending_state 7) = Some 7 \<and> changed_at_time (pending_state 7)
      \<and> tmin (clk_data_config (Some ?lo') None) = Some ?lo'
      \<and> int_mul_float (int 7) (ts_sec (clk_data_config (Some ?lo') None)) = Inr (ps_tick 7)
      \<and> ps_tick 7 < ?lo'"
    by code_simp
  have f: "filter (\<lambda>r. ?lo \<le> fst r) ?rows
           = [(ps_tick 7, [''1'', ''0'']), (ps_tick 9, [''0'', ''0''::string])]"
    by code_simp
  note a = rows_bounded_below [where st = "pending_state 7" and t = 7 and t_sec = "ps_tick 7"
      and cfg = "clk_data_config (Some ?lo') None" and lo = ?lo',
      THEN conjunct1, THEN mp, OF h]
  note b = rows_bounded_below [where lines = clk_toggle_example
      and wanted = "Some [''clk'', ''data[0]'']" and t_max = None and ignore_missing = False
      and sigs = "[''clk'', ''data[0]'']" and lo = ?lo
      and rows = ?rows, THEN conjunct2, THEN mp, OF r]
  from a r [THEN conjunct1] b [unfolded f] show ?thesis
    by (intro conjI)
qed

subsection \<open>The grid of the uniform mode\<close>







end
